theory Spec2Isabelle
  imports Main
begin

section \<open>Python strings: split and join\<close>

text \<open>
  Strings are \<^typ>\<open>string\<close>. \<open>split_on sep s\<close> is Python's \<^verbatim>\<open>s.split(sep)\<close> for a
  separator of one character: it never returns the empty list, and the empty string
  splits into one empty field. \<open>join sep xs\<close> is \<^verbatim>\<open>sep.join(xs)\<close>.
\<close>

fun split_on :: "char \<Rightarrow> string \<Rightarrow> string list" where
  "split_on sep [] = [[]]"
| "split_on sep (c # cs) =
     (if c = sep then [] # split_on sep cs
      else (case split_on sep cs of
              [] \<Rightarrow> [[c]]
            | w # ws \<Rightarrow> (c # w) # ws))"

fun join :: "string \<Rightarrow> string list \<Rightarrow> string" where
  "join sep [] = []"
| "join sep [x] = x"
| "join sep (x # y # ys) = x @ sep @ join sep (y # ys)"


section \<open>Exceptions and imported objects\<close>

text \<open>
  The exceptions the modelled code raises or lets through. \<open>Exception msg\<close> stands for
  any other subclass of \<^verbatim>\<open>Exception\<close> raised by a report or a handler;
  \<open>SystemExit\<close> and \<open>KeyboardInterrupt\<close> derive from \<^verbatim>\<open>BaseException\<close> only, so an
  \<^verbatim>\<open>except Exception\<close> clause does not catch them.
\<close>

datatype exn =
  ReportNotSavedException | DatabaseError | ImportError | AttributeError
  | ValueError | TypeError | OverflowError | Exception string
  | SystemExit | KeyboardInterrupt

definition is_Exception :: "exn \<Rightarrow> bool" where
  "is_Exception e = (case e of SystemExit \<Rightarrow> False | KeyboardInterrupt \<Rightarrow> False | _ \<Rightarrow> True)"

datatype outcome = Returned | Raised exn

text \<open>
  A report instance, as \<^verbatim>\<open>Report.process\<close> uses it: calling \<^verbatim>\<open>report.process()\<close>
  either raises (\<open>Inl\<close>) or returns, and then \<^verbatim>\<open>report.output_filepaths\<close> reads the
  given list (\<open>Inr\<close>).
\<close>

datatype report_instance = ReportInstance (process_result: "exn + string list")

text \<open>
  What a dotted name can resolve to: a report class, called with \<^verbatim>\<open>params=...\<close>, or a
  file handler, a function from a file path to a file path. Either call may raise.
\<close>

datatype 'p pyobj =
  ReportClass "'p \<Rightarrow> exn + report_instance"
  | Function "string \<Rightarrow> exn + string"

text \<open>
  The surroundings of a call: the importable modules (module name to attribute table),
  the setting \<^verbatim>\<open>ONMYDESK_FILE_HANDLER\<close> (\<open>None\<close> when unset) and the readings of
  \<^verbatim>\<open>timer()\<close> in call order, as whole numbers of nanoseconds.
\<close>

record 'p environment =
  modules :: "string \<rightharpoonup> (string \<rightharpoonup> 'p pyobj)"
  ONMYDESK_FILE_HANDLER :: "string option"
  timer :: "nat \<Rightarrow> int"

section \<open>onmydesk/utils.py: my_import\<close>

text \<open>
  \<^verbatim>\<open>*packs, class_name = class_name.split('.')\<close>, then \<^verbatim>\<open>__import__\<close> of the joined
  packages and \<^verbatim>\<open>getattr\<close> of the class name. \<^verbatim>\<open>__import__('')\<close> raises ValueError
  (a name without a dot), a missing module ImportError, a missing attribute
  AttributeError.
\<close>

definition my_import :: "'p environment \<Rightarrow> string \<Rightarrow> exn + 'p pyobj" where
  "my_import env class_name =
     (let parts = split_on CHR ''.'' class_name;
          packs = butlast parts;
          class_name' = last parts
      in if join ''.'' packs = [] then Inl ValueError
         else (case modules env (join ''.'' packs) of
                 None \<Rightarrow> Inl ImportError
               | Some m \<Rightarrow>
                   (case m class_name' of
                      None \<Rightarrow> Inl AttributeError
                    | Some klass \<Rightarrow> Inr klass)))"

section \<open>onmydesk/utils.py: str_to_date\<close>

text \<open>
  A \<^typ>\<open>string\<close> holds the bytes of the Python string in UTF-8. Every character the
  function looks at is ASCII, and no character outside ASCII takes part in a match before
  or after \<^verbatim>\<open>upper()\<close>, so the bytes of such a character are left as they are.

  \<^verbatim>\<open>value.strip(' ')\<close> and \<^verbatim>\<open>.replace(' ', '')\<close>:
\<close>

definition strip_space :: "string \<Rightarrow> string" where
  "strip_space s =
     rev (dropWhile (\<lambda>c. c = CHR '' '') (rev (dropWhile (\<lambda>c. c = CHR '' '') s)))"

definition remove_spaces :: "string \<Rightarrow> string" where
  "remove_spaces s = filter (\<lambda>c. c \<noteq> CHR '' '') s"

text \<open>\<^verbatim>\<open>.upper()\<close>, on the ASCII letters.\<close>

definition upper_char :: "char \<Rightarrow> char" where
  "upper_char c =
     (case map_of (zip ''abcdefghijklmnopqrstuvwxyz'' ''ABCDEFGHIJKLMNOPQRSTUVWXYZ'') c of
        None \<Rightarrow> c
      | Some u \<Rightarrow> u)"

definition upper :: "string \<Rightarrow> string" where
  "upper s = map upper_char s"

text \<open>
  \<^verbatim>\<open>re.match('^D[\-+][0-9]+$|^D$', n_value)\<close>. The class \<^verbatim>\<open>[0-9]\<close> is the ten ASCII
  digits. The anchor \<^verbatim>\<open>$\<close> matches at the end of the string and also just before a
  newline that ends the string; since \<^verbatim>\<open>[0-9]+\<close> can only stop in front of a character
  that is not a digit, the first alternative takes all the digits there are.
\<close>

definition is_digit :: "char \<Rightarrow> bool" where
  "is_digit c = (48 \<le> (of_char c :: nat) \<and> (of_char c :: nat) \<le> 57)"

definition at_end :: "string \<Rightarrow> bool" where
  "at_end s = (s = [] \<or> s = [CHR 0x0A])"

definition pattern_matches :: "string \<Rightarrow> bool" where
  "pattern_matches s =
     (case s of
        [] \<Rightarrow> False
      | c # rest \<Rightarrow>
          c = CHR ''D'' \<and>
          ((case rest of
              [] \<Rightarrow> False
            | sg # ds \<Rightarrow>
                (sg = CHR ''-'' \<or> sg = CHR ''+'') \<and> takeWhile is_digit ds \<noteq> [] \<and>
                at_end (dropWhile is_digit ds))
           \<or> at_end rest))"

text \<open>
  \<^verbatim>\<open>int(s)\<close> on a string: white space around the number is dropped, a sign may lead,
  and the rest must be decimal digits. An interpreter with a limit on integer strings
  (\<^verbatim>\<open>sys.get_int_max_str_digits()\<close>, 4300 unless configured, from CPython 3.11 on)
  raises ValueError when there are more digits than the limit; \<open>max_str_digits = 0\<close>
  stands for no limit, as on earlier interpreters. (Underscores between digits, which
  \<^verbatim>\<open>int\<close> also accepts, are not modelled; the pattern above lets none through.)
\<close>

definition is_space :: "char \<Rightarrow> bool" where
  "is_space c =
     (c \<in> set [CHR 0x09, CHR 0x0A, CHR 0x0B, CHR 0x0C, CHR 0x0D, CHR 0x1C, CHR 0x1D,
                CHR 0x1E, CHR 0x1F, CHR '' ''])"

definition strip_ws :: "string \<Rightarrow> string" where
  "strip_ws s = rev (dropWhile is_space (rev (dropWhile is_space s)))"

definition decimal_value :: "string \<Rightarrow> int" where
  "decimal_value ds = foldl (\<lambda>n c. 10 * n + (int (of_char c) - 48)) 0 ds"

definition py_int :: "nat \<Rightarrow> string \<Rightarrow> exn + int" where
  "py_int max_str_digits s =
     (case strip_ws s of
        [] \<Rightarrow> Inl ValueError
      | c # r \<Rightarrow>
          (let ds = (if c = CHR ''-'' \<or> c = CHR ''+'' then r else c # r) in
           if ds \<noteq> [] \<and> list_all is_digit ds
              \<and> (max_str_digits = 0 \<or> length ds \<le> max_str_digits)
           then Inr (if c = CHR ''-'' then - decimal_value ds else decimal_value ds)
           else Inl ValueError))"

text \<open>
  A date is its proleptic Gregorian ordinal: \<^verbatim>\<open>date.min\<close> is day 1 and \<^verbatim>\<open>date.max\<close> is
  day 3652059. \<^verbatim>\<open>timedelta(days=n)\<close> raises OverflowError beyond 999999999 days either
  way; adding a \<^verbatim>\<open>timedelta\<close> to a date raises OverflowError when the result is not a
  date, and subtracting one adds its negation.
\<close>

definition timedelta :: "int \<Rightarrow> exn + int" where
  "timedelta days =
     (if - 999999999 \<le> days \<and> days \<le> 999999999 then Inr days else Inl OverflowError)"

definition date_add :: "int \<Rightarrow> int \<Rightarrow> exn + int" where
  "date_add d delta =
     (let ordinal = d + delta
      in if 0 < ordinal \<and> ordinal \<le> 3652059 then Inr ordinal else Inl OverflowError)"

definition date_sub :: "int \<Rightarrow> int \<Rightarrow> exn + int" where
  "date_sub d delta = date_add d (- delta)"

text \<open>
  \<^verbatim>\<open>str_to_date(value, reference_date)\<close>, on an interpreter whose limit on integer
  strings is \<open>max_str_digits\<close>. \<open>Inr None\<close> is the \<^verbatim>\<open>None\<close> the function returns
  when it falls off the end of the \<^verbatim>\<open>if\<close> chain.
\<close>

definition str_to_date :: "nat \<Rightarrow> string \<Rightarrow> int \<Rightarrow> exn + int option" where
  "str_to_date max_str_digits value reference_date =
     (let n_value = upper (remove_spaces (strip_space value)) in
      if \<not> pattern_matches n_value then Inl ValueError
      else if n_value = ''D'' then Inr (Some reference_date)
      else if take 2 n_value = ''D-'' then
        (case py_int max_str_digits (drop 2 n_value) of
           Inl e \<Rightarrow> Inl e
         | Inr days \<Rightarrow>
             (case timedelta days of
                Inl e \<Rightarrow> Inl e
              | Inr delta \<Rightarrow>
                  (case date_sub reference_date delta of
                     Inl e \<Rightarrow> Inl e
                   | Inr d \<Rightarrow> Inr (Some d))))
      else if take 2 n_value = ''D+'' then
        (case py_int max_str_digits (drop 2 n_value) of
           Inl e \<Rightarrow> Inl e
         | Inr days \<Rightarrow>
             (case timedelta days of
                Inl e \<Rightarrow> Inl e
              | Inr delta \<Rightarrow>
                  (case date_add reference_date delta of
                     Inl e \<Rightarrow> Inl e
                   | Inr d \<Rightarrow> Inr (Some d))))
      else Inr None)"

section \<open>onmydesk/models.py: output_file_handler\<close>

text \<open>
  \<^verbatim>\<open>handler(filepath)\<close>. A report class called here would give an instance, not a
  string, and the later \<^verbatim>\<open>';'.join\<close> raises TypeError, still inside the \<^verbatim>\<open>try\<close>.
\<close>

definition call_handler :: "'p pyobj \<Rightarrow> string \<Rightarrow> exn + string" where
  "call_handler handler filepath =
     (case handler of Function f \<Rightarrow> f filepath | ReportClass _ \<Rightarrow> Inl TypeError)"

text \<open>\<^verbatim>\<open>not function_handler\<close> holds for \<^verbatim>\<open>None\<close> and for the empty string.\<close>

definition output_file_handler :: "'p environment \<Rightarrow> string \<Rightarrow> exn + string" where
  "output_file_handler env filepath =
     (case ONMYDESK_FILE_HANDLER env of
        None \<Rightarrow> Inr filepath
      | Some function_handler \<Rightarrow>
          if function_handler = [] then Inr filepath
          else (case my_import env function_handler of
                  Inl e \<Rightarrow> Inl e
                | Inr handler \<Rightarrow> call_handler handler filepath))"

section \<open>onmydesk/models.py: the Report record\<close>


text \<open>
  \<^verbatim>\<open>Report.STATUS_PENDING\<close>, \<^verbatim>\<open>STATUS_PROCESSING\<close>, \<^verbatim>\<open>STATUS_PROCESSED\<close> and
  \<^verbatim>\<open>STATUS_ERROR\<close>: the four values of the \<^verbatim>\<open>status\<close> field.
\<close>

datatype report_status =
  STATUS_PENDING | STATUS_PROCESSING | STATUS_PROCESSED | STATUS_ERROR

text \<open>
  The in-memory model instance. \<open>pk\<close> is the field \<^verbatim>\<open>id\<close> (\<open>None\<close> until the record
  is inserted), \<open>process_time\<close> is in nanoseconds; the timestamps and the owner take no part in \<^verbatim>\<open>process\<close> and are
  left out.
\<close>

record Report =
  pk :: "int option"
  status :: report_status
  process_time :: "int option"
  report :: string
  results :: "string option"

text \<open>
  \<^verbatim>\<open>Report(report=name)\<close>: every other field takes its default, \<^verbatim>\<open>status\<close> the
  declared \<^verbatim>\<open>default=STATUS_PENDING\<close>.
\<close>

definition new_Report :: "string \<Rightarrow> Report" where
  "new_Report name =
     \<lparr>pk = None, status = STATUS_PENDING, process_time = None, report = name,
      results = None\<rparr>"

text \<open>
  The property \<^verbatim>\<open>results_as_list\<close>: \<^verbatim>\<open>not self.results\<close> holds for \<^verbatim>\<open>None\<close> and
  for the empty string.
\<close>

definition results_as_list :: "Report \<Rightarrow> string list" where
  "results_as_list self =
     (case results self of
        None \<Rightarrow> []
      | Some s \<Rightarrow> if s = [] then [] else split_on CHR '';'' s)"


section \<open>The database behind the model\<close>

text \<open>
  One table row per saved record, the next automatic key, and the history of the values
  written to the \<^verbatim>\<open>status\<close> column, oldest first. A save can fail for reasons outside
  the program (a lock, a lost connection, a row deleted meanwhile, a signal receiver that
  raises): \<open>save_faults\<close> lists what happens to the coming calls of
  \<^verbatim>\<open>save(update_fields=['status'])\<close>, in order. A call either goes through, raises
  before it has written, or raises after its UPDATE went through; calls beyond the list
  go through.
\<close>

datatype save_fault = NoFault | RaiseBefore exn | RaiseAfter exn

record dbrow =
  db_status :: report_status
  db_process_time :: "int option"
  db_report :: string
  db_results :: "string option"

record database =
  rows :: "int \<rightharpoonup> dbrow"
  next_id :: int
  status_log :: "(int \<times> report_status) list"
  save_faults :: "save_fault list"

definition row_of :: "Report \<Rightarrow> dbrow" where
  "row_of self =
     \<lparr>db_status = status self, db_process_time = process_time self,
      db_report = report self, db_results = results self\<rparr>"

text \<open>
  \<^verbatim>\<open>self.save()\<close>, as the examples use it to set a record up: a record without a key is
  inserted under the next automatic key, a record with a key has its row written whole.
\<close>

definition save :: "Report \<Rightarrow> database \<Rightarrow> Report \<times> database" where
  "save self db =
     (case pk self of
        None \<Rightarrow>
          (let i = next_id db; self' = self\<lparr>pk := Some i\<rparr>
           in (self', db\<lparr>rows := (rows db)(i \<mapsto> row_of self'), next_id := i + 1,
                          status_log := status_log db @ [(i, status self')]\<rparr>))
      | Some i \<Rightarrow>
          (self, db\<lparr>rows := (rows db)(i \<mapsto> row_of self),
                     status_log := status_log db @ [(i, status self)]\<rparr>))"

text \<open>The fate of the next save, and the database with that entry used up.\<close>

definition next_fault :: "database \<Rightarrow> save_fault \<times> database" where
  "next_fault db =
     (case save_faults db of
        [] \<Rightarrow> (NoFault, db)
      | f # fs \<Rightarrow> (f, db\<lparr>save_faults := fs\<rparr>))"

text \<open>
  \<^verbatim>\<open>self.save(update_fields=['status'])\<close>: an UPDATE of the one column. The result is
  the exception the call raises, if any, and the database after it. Django raises
  ValueError when the instance has no key and DatabaseError when the UPDATE touches no
  row.
\<close>

definition save_status :: "Report \<Rightarrow> database \<Rightarrow> exn option \<times> database" where
  "save_status self db =
     (case pk self of
        None \<Rightarrow> (Some ValueError, db)
      | Some i \<Rightarrow>
          (case next_fault db of
             (RaiseBefore e, db0) \<Rightarrow> (Some e, db0)
           | (f, db0) \<Rightarrow>
               (case rows db0 i of
                  None \<Rightarrow> (Some DatabaseError, db0)
                | Some row \<Rightarrow>
                    (let db1 = db0\<lparr>rows := (rows db0)(i \<mapsto> row\<lparr>db_status := status self\<rparr>),
                                   status_log := status_log db0 @ [(i, status self)]\<rparr>
                     in case f of
                          RaiseAfter e \<Rightarrow> (Some e, db1)
                        | _ \<Rightarrow> (None, db1)))))"

section \<open>onmydesk/models.py: Report.process\<close>

text \<open>\<^verbatim>\<open>not self.id\<close> holds for \<^verbatim>\<open>None\<close> and for 0.\<close>

definition id_is_set :: "int option \<Rightarrow> bool" where
  "id_is_set i = (case i of None \<Rightarrow> False | Some n \<Rightarrow> n \<noteq> 0)"

text \<open>\<^verbatim>\<open>report_class(params=report_params)\<close>; a handler function takes no such keyword.\<close>

definition call_report_class :: "'p pyobj \<Rightarrow> 'p \<Rightarrow> exn + report_instance" where
  "call_report_class report_class report_params =
     (case report_class of ReportClass k \<Rightarrow> k report_params | Function _ \<Rightarrow> Inl TypeError)"

text \<open>
  The loop \<^verbatim>\<open>for filepath in report.output_filepaths: results.append(...)\<close>, leaving
  at the first exception.
\<close>

fun handle_filepaths :: "'p environment \<Rightarrow> string list \<Rightarrow> string list \<Rightarrow> exn + string list" where
  "handle_filepaths env acc [] = Inr acc"
| "handle_filepaths env acc (filepath # rest) =
     (case output_file_handler env filepath of
        Inl e \<Rightarrow> Inl e
      | Inr handled \<Rightarrow> handle_filepaths env (acc @ [handled]) rest)"

text \<open>
  \<^verbatim>\<open>getcontext().prec = 5\<close>: the difference of the two \<^verbatim>\<open>Decimal\<close> readings is rounded
  to five significant digits, halves to the even neighbour. \<open>num_digits n\<close> is the
  number of decimal digits of \<open>n\<close>.
\<close>

fun num_digits :: "nat \<Rightarrow> nat" where
  "num_digits n = (if n < 10 then 1 else Suc (num_digits (n div 10)))"

definition round_significant :: "nat \<Rightarrow> int \<Rightarrow> int" where
  "round_significant prec x =
     (let a = nat \<bar>x\<bar>; n = num_digits a in
      if n \<le> prec then x
      else (let p = 10 ^ (n - prec); q = a div p; r = a mod p;
                q' = (if 2 * r < p \<or> (2 * r = p \<and> even q) then q else q + 1)
            in (if x < 0 then - int (q' * p) else int (q' * p))))"

text \<open>
  The body of the \<^verbatim>\<open>try\<close>: the exception that leaves it, if any, with the record and
  the database as they are at that moment.
\<close>

definition process_try ::
  "'p environment \<Rightarrow> report_instance \<Rightarrow> Report \<times> database \<Rightarrow> exn option \<times> Report \<times> database" where
  "process_try env rep st =
     (case st of (self, db) \<Rightarrow>
       (let start = timer env 0 in
        case process_result rep of
          Inl e \<Rightarrow> (Some e, self, db)
        | Inr output_filepaths \<Rightarrow>
            (let self1 = self\<lparr>process_time := Some (round_significant 5 (timer env 1 - start))\<rparr> in
             case handle_filepaths env [] output_filepaths of
               Inl e \<Rightarrow> (Some e, self1, db)
             | Inr handled \<Rightarrow>
                 (let self2 = self1\<lparr>results := Some (join '';'' handled)\<rparr>;
                      self3 = self2\<lparr>status := STATUS_PROCESSED\<rparr>
                  in case save_status self3 db of
                       (Some e, db') \<Rightarrow> (Some e, self3, db')
                     | (None, db') \<Rightarrow> (None, self3, db')))))"

text \<open>
  The \<^verbatim>\<open>except Exception\<close> clause: the status becomes \<^verbatim>\<open>error\<close> and is saved; the
  exception is not raised again. An exception that is not an \<^verbatim>\<open>Exception\<close> passes
  through.
\<close>

definition process_except :: "exn \<Rightarrow> Report \<times> database \<Rightarrow> outcome \<times> Report \<times> database" where
  "process_except e st =
     (case st of (self, db) \<Rightarrow>
       if is_Exception e then
         (let self' = self\<lparr>status := STATUS_ERROR\<rparr>
          in case save_status self' db of
               (Some e', db') \<Rightarrow> (Raised e', self', db')
             | (None, db') \<Rightarrow> (Returned, self', db'))
       else (Raised e, self, db))"

text \<open>
  \<^verbatim>\<open>Report.process(self, report_params)\<close> on the record \<open>self\<close> and the database
  \<open>db\<close>: how the call ends, and the record and the database after it.
\<close>

definition process ::
  "'p environment \<Rightarrow> 'p \<Rightarrow> Report \<times> database \<Rightarrow> outcome \<times> Report \<times> database" where
  "process env report_params st =
     (case st of (self, db) \<Rightarrow>
       if \<not> id_is_set (pk self) then (Raised ReportNotSavedException, self, db)
       else
         (let self1 = self\<lparr>status := STATUS_PROCESSING\<rparr> in
          case save_status self1 db of
            (Some e, db1) \<Rightarrow> (Raised e, self1, db1)
          | (None, db1) \<Rightarrow>
              (case my_import env (report self1) of
                 Inl e \<Rightarrow> (Raised e, self1, db1)
               | Inr report_class \<Rightarrow>
                   (case call_report_class report_class report_params of
                      Inl e \<Rightarrow> (Raised e, self1, db1)
                    | Inr rep \<Rightarrow>
                        (case process_try env rep (self1, db1) of
                           (None, st') \<Rightarrow> (Returned, st')
                         | (Some e, st') \<Rightarrow> process_except e st')))))"

section \<open>onmydesk/core/reports.py: BaseReport\<close>

text \<open>
  Modelled from the spec: the Output and Dataset classes (\<^verbatim>\<open>onmydesk.core.outputs\<close>,
  \<^verbatim>\<open>onmydesk.core.datasets\<close>) are not among the sources; the spec calls them
  abstractions that exist externally, a dataset being a source of rows and an output a
  sink with a file path. An output is modelled by its \<^verbatim>\<open>filepath\<close> and the calls it
  has received, oldest first: entering and leaving its \<^verbatim>\<open>with\<close> context,
  \<^verbatim>\<open>header(h)\<close>, \<^verbatim>\<open>out(row)\<close> and \<^verbatim>\<open>footer(f)\<close>. A dataset is modelled by the finite
  list of rows \<^verbatim>\<open>iterate(params=...)\<close> yields and the calls it has received. The calls
  themselves do not fail, and each entry of the outputs list is an object of its own.
\<close>

datatype ('h, 'r) output_call = Entered | Header 'h | Out 'r | Footer 'h | Exited

record ('h, 'r) Output =
  filepath :: string
  received :: "('h, 'r) output_call list"

datatype 'p dataset_call = DatasetEntered | Iterate 'p | DatasetExited

record ('p, 'r) dataset =
  iterate :: "'p \<Rightarrow> 'r list"
  dataset_calls :: "'p dataset_call list"

definition call_output :: "('h, 'r) output_call \<Rightarrow> ('h, 'r) Output \<Rightarrow> ('h, 'r) Output" where
  "call_output c output = output\<lparr>received := received output @ [c]\<rparr>"

definition call_dataset :: "'p dataset_call \<Rightarrow> ('p, 'r) dataset \<Rightarrow> ('p, 'r) dataset" where
  "call_dataset c ds = ds\<lparr>dataset_calls := dataset_calls ds @ [c]\<rparr>"

text \<open>
  What a report class declares: the class attributes \<^verbatim>\<open>header\<close> and \<^verbatim>\<open>footer\<close>, the
  properties \<^verbatim>\<open>dataset\<close> and \<^verbatim>\<open>outputs\<close>, and the method \<^verbatim>\<open>row_cleaner\<close>, which a
  subclass may override.
\<close>

record ('p, 'h, 'r) report_definition =
  header :: 'h
  footer :: 'h
  dataset :: "('p, 'r) dataset"
  outputs :: "('h, 'r) Output list"
  row_cleaner :: "'r \<Rightarrow> 'r"

text \<open>\<^verbatim>\<open>BaseReport.row_cleaner\<close> itself returns the row as it is.\<close>

definition BaseReport_row_cleaner :: "'r \<Rightarrow> 'r" where
  "BaseReport_row_cleaner row = row"

text \<open>
  List objects live in a heap, a list addressed by position; a new list takes the next
  position. The class body \<^verbatim>\<open>output_filepaths = []\<close> creates one list, shared by the
  class: in \<open>class_heap\<close>, the heap right after the class is defined, it is the only
  object.
\<close>

type_synonym heap = "string list list"

definition class_output_filepaths :: nat where
  "class_output_filepaths = 0"

definition class_heap :: heap where
  "class_heap = [[]]"

text \<open>
  An instance: the entry \<^verbatim>\<open>output_filepaths\<close> of its own \<^verbatim>\<open>__dict__\<close>, if it has
  one, and \<^verbatim>\<open>params\<close>. Reading \<^verbatim>\<open>self.output_filepaths\<close> takes the instance's entry
  and falls back to the class attribute.
\<close>

record 'p BaseReport =
  own_output_filepaths :: "nat option"
  params :: 'p

definition output_filepaths :: "heap \<Rightarrow> 'p BaseReport \<Rightarrow> string list" where
  "output_filepaths h self =
     (case own_output_filepaths self of
        Some a \<Rightarrow> h ! a
      | None \<Rightarrow> h ! class_output_filepaths)"

text \<open>\<^verbatim>\<open>__init__\<close>: \<^verbatim>\<open>self.output_filepaths = []\<close> creates a new list and binds it.\<close>

definition BaseReport_init :: "heap \<Rightarrow> 'p \<Rightarrow> heap \<times> 'p BaseReport" where
  "BaseReport_init h p =
     (h @ [[]], \<lparr>own_output_filepaths = Some (length h), params = p\<rparr>)"

text \<open>
  The loop \<^verbatim>\<open>for row in dataset_iterator\<close>: the row is cleaned, then written to each
  output in turn.
\<close>

fun write_rows :: "('r \<Rightarrow> 'r) \<Rightarrow> 'r list \<Rightarrow> ('h, 'r) Output list \<Rightarrow> ('h, 'r) Output list" where
  "write_rows cleaner [] outs = outs"
| "write_rows cleaner (row # dataset_iterator) outs =
     (let row' = cleaner row
      in write_rows cleaner dataset_iterator (map (call_output (Out row')) outs))"

text \<open>
  \<^verbatim>\<open>BaseReport.process\<close>: the dataset and the outputs are entered, every output gets
  the header, the rows are written, every output gets the footer, the list of file paths
  is built and bound to the instance, and the contexts are left. The result is the heap,
  the instance, the outputs and the dataset after the call.
\<close>

definition BaseReport_process ::
  "('p, 'h, 'r) report_definition \<Rightarrow> heap \<times> 'p BaseReport \<Rightarrow>
   heap \<times> 'p BaseReport \<times> ('h, 'r) Output list \<times> ('p, 'r) dataset" where
  "BaseReport_process defn st =
     (case st of (h, self) \<Rightarrow>
       (let ds = call_dataset DatasetEntered (dataset defn);
            outs0 = map (call_output Entered) (outputs defn);
            outs1 = map (call_output (Header (header defn))) outs0;
            dataset_iterator = iterate ds (params self);
            ds1 = call_dataset (Iterate (params self)) ds;
            outs2 = write_rows (row_cleaner defn) dataset_iterator outs1;
            outs3 = map (call_output (Footer (footer defn))) outs2;
            h' = h @ [map filepath outs3];
            self' = self\<lparr>own_output_filepaths := Some (length h)\<rparr>;
            outs4 = map (call_output Exited) outs3;
            ds2 = call_dataset DatasetExited ds1
        in (h', self', outs4, ds2)))"

section \<open>A small installation\<close>

text \<open>
  Two report classes and a file handler, for running the model: \<^verbatim>\<open>reports.SalesReport\<close>
  writes two files, \<^verbatim>\<open>broken.FailingReport\<close> raises while processing, and
  \<^verbatim>\<open>handlers.to_bucket\<close> rewrites a path into a bucket address. Report parameters are
  a list of name and value pairs.
\<close>

definition example_modules :: "string \<rightharpoonup> (string \<rightharpoonup> (string \<times> string) list pyobj)" where
  "example_modules =
     [''reports'' \<mapsto>
        [''SalesReport'' \<mapsto>
           ReportClass (\<lambda>params. Inr (ReportInstance (Inr [''/tmp/a.tsv'', ''/tmp/b.tsv''])))],
      ''handlers'' \<mapsto> [''to_bucket'' \<mapsto> Function (\<lambda>filepath. Inr (''s3:/'' @ filepath))],
      ''broken'' \<mapsto>
        [''FailingReport'' \<mapsto>
           ReportClass (\<lambda>params. Inr (ReportInstance (Inl (Exception ''no such table''))))]]"

definition example_env :: "(string \<times> string) list environment" where
  "example_env =
     \<lparr>modules = example_modules, ONMYDESK_FILE_HANDLER = None,
      timer = (\<lambda>n. if n = 0 then 10000000000 else 15123456789)\<rparr>"

definition handler_env :: "(string \<times> string) list environment" where
  "handler_env = example_env\<lparr>ONMYDESK_FILE_HANDLER := Some ''handlers.to_bucket''\<rparr>"

definition empty_db :: database where
  "empty_db = \<lparr>rows = Map.empty, next_id = 1, status_log = [], save_faults = []\<rparr>"


text \<open>Three saved records: each is created, then inserted into the empty database.\<close>

definition sales_job :: "Report \<times> database" where
  "sales_job = save (new_Report ''reports.SalesReport'') empty_db"

definition failing_job :: "Report \<times> database" where
  "failing_job = save (new_Report ''broken.FailingReport'') empty_db"

definition unknown_job :: "Report \<times> database" where
  "unknown_job = save (new_Report ''reports.Unknown'') empty_db"


text \<open>
  The sales record on a database whose second save of the call fails: once before the
  UPDATE is written (a lost connection), once after it went through.
\<close>

definition lost_connection_job :: "Report \<times> database" where
  "lost_connection_job =
     (fst sales_job, (snd sales_job)\<lparr>save_faults := [NoFault, RaiseBefore DatabaseError]\<rparr>)"


text \<open>
  A report definition with two outputs and two rows; its \<^verbatim>\<open>row_cleaner\<close> removes the
  spaces of every field.
\<close>

definition sales_definition ::
  "((string \<times> string) list, string option, string list) report_definition" where
  "sales_definition =
     \<lparr>header = Some ''id, total'', footer = None,
      dataset = \<lparr>iterate = (\<lambda>params. [[''1'', '' 10''], [''2'', '' 25'']]), dataset_calls = []\<rparr>,
      outputs = [\<lparr>filepath = ''/tmp/a.tsv'', received = []\<rparr>,
                 \<lparr>filepath = ''/tmp/b.tsv'', received = []\<rparr>],
      row_cleaner = map remove_spaces\<rparr>"

lemmas example_defs =
  example_modules_def example_env_def handler_env_def empty_db_def new_Report_def save_def
  row_of_def sales_job_def failing_job_def unknown_job_def

lemmas run_defs =
  process_def process_try_def process_except_def save_status_def next_fault_def my_import_def
  call_report_class_def call_handler_def output_file_handler_def id_is_set_def is_Exception_def
  Let_def

section \<open>Splitting a joined list\<close>

lemma split_on_not_Nil: "split_on sep s \<noteq> []"
  by (induction s) (auto split: list.splits)

lemma split_on_no_sep: "sep \<notin> set s \<Longrightarrow> split_on sep s = [s]"
  by (induction s) auto

lemma split_on_append_sep:
  "sep \<notin> set x \<Longrightarrow> split_on sep (x @ sep # rest) = x # split_on sep rest"
  by (induction x) auto

lemma split_on_join:
  "xs \<noteq> [] \<Longrightarrow> list_all (\<lambda>x. sep \<notin> set x) xs \<Longrightarrow> split_on sep (join [sep] xs) = xs"
proof (induction xs rule: induct_list012)
  case 1
  then show ?case by simp
next
  case (2 x)
  then show ?case by (simp add: split_on_no_sep)
next
  case (3 x y ys)
  then show ?case by (simp add: split_on_append_sep)
qed

lemma join_eq_Nil:
  "join sep xs = [] \<longleftrightarrow> xs = [] \<or> (sep = [] \<and> list_all (\<lambda>x. x = []) xs) \<or> xs = [[]]"
  by (induction sep xs rule: join.induct) auto


section \<open>The paths through Report.process\<close>

lemma save_status_cases:
  assumes "save_status self db = (r, db')"
  obtains
    (no_key) "pk self = None" "r = Some ValueError" "db' = db"
  | (before) i e where "pk self = Some i" "fst (next_fault db) = RaiseBefore e"
      "r = Some e" "db' = snd (next_fault db)"
  | (no_row) i where "pk self = Some i" "rows db i = None" "r = Some DatabaseError"
      "db' = snd (next_fault db)"
  | (after) i row e where "pk self = Some i" "rows db i = Some row"
      "fst (next_fault db) = RaiseAfter e" "r = Some e"
      "db' = (snd (next_fault db))\<lparr>rows := (rows db)(i \<mapsto> row\<lparr>db_status := status self\<rparr>),
                status_log := status_log db @ [(i, status self)]\<rparr>"
  | (written) i row where "pk self = Some i" "rows db i = Some row"
      "fst (next_fault db) = NoFault" "r = None"
      "db' = (snd (next_fault db))\<lparr>rows := (rows db)(i \<mapsto> row\<lparr>db_status := status self\<rparr>),
                status_log := status_log db @ [(i, status self)]\<rparr>"
proof -
  have nf: "rows (snd (next_fault db)) = rows db" "status_log (snd (next_fault db)) = status_log db"
    by (simp_all add: next_fault_def split: list.splits)
  show ?thesis
  proof (cases "pk self")
    case None
    with assms show ?thesis by (intro no_key) (simp_all add: save_status_def)
  next
    case (Some i)
    obtain f db0 where f: "next_fault db = (f, db0)" by (cases "next_fault db")
    with nf have db0: "rows db0 = rows db" "status_log db0 = status_log db" by simp_all
    show ?thesis
    proof (cases f)
      case (RaiseBefore e)
      with assms Some f show ?thesis
        by (intro before[of i e]) (simp_all add: save_status_def)
    next
      case NoFault
      show ?thesis
      proof (cases "rows db i")
        case None
        with assms Some f NoFault db0 show ?thesis
          by (intro no_row[of i]) (simp_all add: save_status_def)
      next
        case (Some row)
        with assms \<open>pk self = Some i\<close> f NoFault db0 show ?thesis
          by (intro written[of i row]) (simp_all add: save_status_def Let_def)
      qed
    next
      case (RaiseAfter e)
      show ?thesis
      proof (cases "rows db i")
        case None
        with assms Some f RaiseAfter db0 show ?thesis
          by (intro no_row[of i]) (simp_all add: save_status_def)
      next
        case (Some row)
        with assms \<open>pk self = Some i\<close> f RaiseAfter db0 show ?thesis
          by (intro after[of i row e]) (simp_all add: save_status_def Let_def)
      qed
    qed
  qed
qed

lemma next_fault_frame:
  "rows (snd (next_fault db)) = rows db"
  "status_log (snd (next_fault db)) = status_log db"
  "next_id (snd (next_fault db)) = next_id db"
  "save_faults (snd (next_fault db)) = tl (save_faults db)"
  "save_faults db = [] \<Longrightarrow> fst (next_fault db) = NoFault"
  by (simp_all add: next_fault_def split: list.splits)


lemma save_status_no_fault:
  assumes "pk self = Some i" "rows db i = Some row"
      and "save_faults db = [] \<or> hd (save_faults db) = NoFault"
  shows "save_status self db =
     (None, db\<lparr>save_faults := tl (save_faults db),
              rows := (rows db)(i \<mapsto> row\<lparr>db_status := status self\<rparr>),
              status_log := status_log db @ [(i, status self)]\<rparr>)"
  using assms
  by (auto simp: save_status_def next_fault_def Let_def split: list.splits)

lemma handle_filepaths_Inr:
  "handle_filepaths env acc fps = Inr hs \<longleftrightarrow>
   (\<exists>hs'. hs = acc @ hs' \<and> map (output_file_handler env) fps = map Inr hs')"
proof (induction fps arbitrary: acc)
  case Nil
  then show ?case by auto
next
  case (Cons fp fps)
  show ?case
  proof (cases "output_file_handler env fp")
    case (Inl e)
    then show ?thesis by (auto simp: map_eq_Cons_conv)
  next
    case (Inr h)
    then show ?thesis
      by (auto simp: Cons.IH map_eq_Cons_conv)
  qed
qed

lemma process_except_cases:
  assumes "process_except e (s, d) = (out, s', d')"
  obtains
    (saved) "is_Exception e" "s' = s\<lparr>status := STATUS_ERROR\<rparr>" "out = Returned"
      "save_status s' d = (None, d')"
  | (save_raised) e' where "is_Exception e" "s' = s\<lparr>status := STATUS_ERROR\<rparr>"
      "out = Raised e'" "save_status s' d = (Some e', d')"
  | (passed) "\<not> is_Exception e" "out = Raised e" "s' = s" "d' = d"
proof (cases "is_Exception e")
  case False
  with assms show ?thesis by (intro passed) (simp_all add: process_except_def)
next
  case True
  obtain r dx where sv: "save_status (s\<lparr>status := STATUS_ERROR\<rparr>) d = (r, dx)"
    by (cases "save_status (s\<lparr>status := STATUS_ERROR\<rparr>) d")
  show ?thesis
  proof (cases r)
    case None
    with assms True sv show ?thesis
      by (intro saved) (simp_all add: process_except_def Let_def)
  next
    case (Some e')
    with assms True sv show ?thesis
      by (intro save_raised[of e']) (simp_all add: process_except_def Let_def)
  qed
qed

lemma process_elim [consumes 1]:
  assumes "process env report_params (self, db) = (out, self', db')"
  obtains
    (not_saved) "\<not> id_is_set (pk self)" "out = Raised ReportNotSavedException"
      "self' = self" "db' = db"
  | (save_failed) e where "id_is_set (pk self)"
      "save_status (self\<lparr>status := STATUS_PROCESSING\<rparr>) db = (Some e, db')"
      "out = Raised e" "self' = self\<lparr>status := STATUS_PROCESSING\<rparr>"
  | (not_resolved) e where "id_is_set (pk self)"
      "save_status (self\<lparr>status := STATUS_PROCESSING\<rparr>) db = (None, db')"
      "out = Raised e" "self' = self\<lparr>status := STATUS_PROCESSING\<rparr>"
      "my_import env (report self) = Inl e
       \<or> (\<exists>c. my_import env (report self) = Inr c \<and> call_report_class c report_params = Inl e)"
  | (processed) db1 c rep fps hs where "id_is_set (pk self)"
      "save_status (self\<lparr>status := STATUS_PROCESSING\<rparr>) db = (None, db1)"
      "my_import env (report self) = Inr c" "call_report_class c report_params = Inr rep"
      "process_result rep = Inr fps" "handle_filepaths env [] fps = Inr hs"
      "out = Returned"
      "self' = self\<lparr>status := STATUS_PROCESSED,
                 process_time := Some (round_significant 5 (timer env 1 - timer env 0)),
                 results := Some (join '';'' hs)\<rparr>"
      "save_status self' db1 = (None, db')"
  | (run_failed) db1 c rep e selfx where "id_is_set (pk self)"
      "save_status (self\<lparr>status := STATUS_PROCESSING\<rparr>) db = (None, db1)"
      "my_import env (report self) = Inr c" "call_report_class c report_params = Inr rep"
      "process_result rep = Inl e \<and> selfx = self\<lparr>status := STATUS_PROCESSING\<rparr>
       \<or> (\<exists>fps. process_result rep = Inr fps \<and> handle_filepaths env [] fps = Inl e \<and>
             selfx = self\<lparr>status := STATUS_PROCESSING,
                          process_time := Some (round_significant 5 (timer env 1 - timer env 0))\<rparr>)"
      "process_except e (selfx, db1) = (out, self', db')"
  | (last_save_failed) db1 c rep fps hs e selfx db2 where "id_is_set (pk self)"
      "save_status (self\<lparr>status := STATUS_PROCESSING\<rparr>) db = (None, db1)"
      "my_import env (report self) = Inr c" "call_report_class c report_params = Inr rep"
      "process_result rep = Inr fps" "handle_filepaths env [] fps = Inr hs"
      "selfx = self\<lparr>status := STATUS_PROCESSED,
                 process_time := Some (round_significant 5 (timer env 1 - timer env 0)),
                 results := Some (join '';'' hs)\<rparr>"
      "save_status selfx db1 = (Some e, db2)"
      "process_except e (selfx, db2) = (out, self', db')"
proof (cases "id_is_set (pk self)")
  case False
  with assms show ?thesis by (intro not_saved) (simp_all add: process_def)
next
  case set: True
  let ?self1 = "self\<lparr>status := STATUS_PROCESSING\<rparr>"
  obtain r1 db1 where s1: "save_status ?self1 db = (r1, db1)"
    by (cases "save_status ?self1 db")
  show ?thesis
  proof (cases r1)
    case (Some e)
    with assms set s1 show ?thesis
      by (intro save_failed[of e]) (simp_all add: process_def Let_def)
  next
    case None
    note s1 = s1[unfolded None]
    show ?thesis
    proof (cases "my_import env (report self)")
      case (Inl e)
      with assms set s1 show ?thesis
        by (intro not_resolved[of e]) (simp_all add: process_def Let_def)
    next
      case imp: (Inr c)
      show ?thesis
      proof (cases "call_report_class c report_params")
        case (Inl e)
        with assms set s1 imp show ?thesis
          by (intro not_resolved[of e]) (simp_all add: process_def Let_def)
      next
        case call: (Inr rep)
        from assms set s1 imp call
        have fin: "(case process_try env rep (?self1, db1) of
                      (None, st') \<Rightarrow> (Returned, st')
                    | (Some e, st') \<Rightarrow> process_except e st') = (out, self', db')"
          by (simp add: process_def Let_def)
        show ?thesis
        proof (cases "process_result rep")
          case (Inl e)
          with fin have "process_except e (?self1, db1) = (out, self', db')"
            by (simp add: process_try_def)
          with set s1 imp call Inl show ?thesis
            by (intro run_failed[of db1 c rep e ?self1]) simp_all
        next
          case run: (Inr fps)
          let ?self2 = "self\<lparr>status := STATUS_PROCESSING,
                process_time := Some (round_significant 5 (timer env 1 - timer env 0))\<rparr>"
          show ?thesis
          proof (cases "handle_filepaths env [] fps")
            case (Inl e)
            with fin run have "process_except e (?self2, db1) = (out, self', db')"
              by (simp add: process_try_def Let_def)
            with set s1 imp call Inl run show ?thesis
              by (intro run_failed[of db1 c rep e ?self2]) simp_all
          next
            case hf: (Inr hs)
            let ?self3 = "self\<lparr>status := STATUS_PROCESSED,
                 process_time := Some (round_significant 5 (timer env 1 - timer env 0)),
                 results := Some (join '';'' hs)\<rparr>"
            let ?made = "self\<lparr>status := STATUS_PROCESSING\<rparr>
                 \<lparr>process_time := Some (round_significant 5 (timer env 1 - timer env 0))\<rparr>
                 \<lparr>results := Some (join '';'' hs)\<rparr>\<lparr>status := STATUS_PROCESSED\<rparr>"
            have made: "?made = ?self3" by simp
            obtain r3 db3 where s3: "save_status ?made db1 = (r3, db3)"
              by (cases "save_status ?made db1")
            from run hf s3
            have tr: "process_try env rep (?self1, db1) = (r3, ?made, db3)"
              by (cases r3) (simp_all add: process_try_def Let_def)
            show ?thesis
            proof (cases r3)
              case None
              with fin tr have "out = Returned" "self' = ?made" "db' = db3"
                by simp_all
              with set s1 imp call run hf s3 None show ?thesis
                unfolding made by (intro processed[of db1 c rep fps hs]) simp_all
            next
              case (Some e)
              with fin tr have "process_except e (?made, db3) = (out, self', db')"
                by simp
              with set s1 imp call run hf s3 Some show ?thesis
                unfolding made by (intro last_save_failed[of db1 c rep fps hs ?self3 e db3]) simp_all
            qed
          qed
        qed
      qed
    qed
  qed
qed

lemma save_status_fault_free:
  assumes "save_faults db = []" "save_status s db = (r, db')"
  shows "save_faults db' = []"
    and "r = None \<longleftrightarrow> (\<exists>i row. pk s = Some i \<and> rows db i = Some row)"
    and "dom (rows db') = dom (rows db)"
  using assms(2)
  by (cases rule: save_status_cases; use assms(1) in \<open>auto simp: next_fault_frame\<close>)+

lemma save_status_pk:
  assumes "save_status s db = (None, db')"
  obtains i row where "pk s = Some i" "rows db i = Some row" "i \<in> dom (rows db')"
  using assms by (cases rule: save_status_cases) auto

section \<open>Runs of the small installation\<close>

lemma example_elapsed: "round_significant 5 5123456789 = 5123500000"
  by (simp add: round_significant_def Let_def)

lemma sales_job_run:
  "process example_env [] sales_job =
     (Returned,
      \<lparr>pk = Some 1, status = STATUS_PROCESSED, process_time = Some 5123500000,
       report = ''reports.SalesReport'', results = Some ''/tmp/a.tsv;/tmp/b.tsv''\<rparr>,
      \<lparr>rows = [1 \<mapsto> \<lparr>db_status = STATUS_PROCESSED, db_process_time = None,
                      db_report = ''reports.SalesReport'', db_results = None\<rparr>],
       next_id = 2,
       status_log = [(1, STATUS_PENDING), (1, STATUS_PROCESSING), (1, STATUS_PROCESSED)],
       save_faults = []\<rparr>)"
  by (simp add: example_defs run_defs example_elapsed)

lemma failing_job_run:
  "process example_env [] failing_job =
     (Returned,
      \<lparr>pk = Some 1, status = STATUS_ERROR, process_time = None,
       report = ''broken.FailingReport'', results = None\<rparr>,
      \<lparr>rows = [1 \<mapsto> \<lparr>db_status = STATUS_ERROR, db_process_time = None,
                      db_report = ''broken.FailingReport'', db_results = None\<rparr>],
       next_id = 2,
       status_log = [(1, STATUS_PENDING), (1, STATUS_PROCESSING), (1, STATUS_ERROR)],
       save_faults = []\<rparr>)"
  by (simp add: example_defs run_defs)


lemma handler_job_run:
  "process handler_env [] sales_job =
     (Returned,
      \<lparr>pk = Some 1, status = STATUS_PROCESSED, process_time = Some 5123500000,
       report = ''reports.SalesReport'',
       results = Some ''s3://tmp/a.tsv;s3://tmp/b.tsv''\<rparr>,
      \<lparr>rows = [1 \<mapsto> \<lparr>db_status = STATUS_PROCESSED, db_process_time = None,
                      db_report = ''reports.SalesReport'', db_results = None\<rparr>],
       next_id = 2,
       status_log = [(1, STATUS_PENDING), (1, STATUS_PROCESSING), (1, STATUS_PROCESSED)],
       save_faults = []\<rparr>)"
  by (simp add: example_defs run_defs example_elapsed)

lemma lost_connection_job_run:
  "process example_env [] lost_connection_job =
     (Returned,
      \<lparr>pk = Some 1, status = STATUS_ERROR, process_time = Some 5123500000,
       report = ''reports.SalesReport'', results = Some ''/tmp/a.tsv;/tmp/b.tsv''\<rparr>,
      \<lparr>rows = [1 \<mapsto> \<lparr>db_status = STATUS_ERROR, db_process_time = None,
                      db_report = ''reports.SalesReport'', db_results = None\<rparr>],
       next_id = 2,
       status_log = [(1, STATUS_PENDING), (1, STATUS_PROCESSING), (1, STATUS_ERROR)],
       save_faults = []\<rparr>)"
  by (simp add: lost_connection_job_def example_defs run_defs example_elapsed)


section \<open>Report.process: status and results\<close>

text \<open>
  C2. A saved record (its \<^verbatim>\<open>id\<close> is set) whose \<^verbatim>\<open>process\<close> call returns has status
  \<^verbatim>\<open>processed\<close> or \<^verbatim>\<open>error\<close>, never \<^verbatim>\<open>pending\<close> or \<^verbatim>\<open>processing\<close>, and the row in
  the database carries the same status. A call that raises instead (the report class does
  not resolve, or a save fails outside the \<^verbatim>\<open>try\<close>) does not return, and is not covered.
\<close>

theorem process_returns_final_status:
  assumes "id_is_set (pk self)"
      and "process env report_params (self, db) = (Returned, self', db')"
  shows "(status self' = STATUS_PROCESSED \<or> status self' = STATUS_ERROR)
       \<and> (\<exists>i row. pk self' = Some i \<and> rows db' i = Some row \<and> db_status row = status self')"
  using assms(2)
proof (cases rule: process_elim)
  case (processed db1 c rep fps hs)
  from processed(9) show ?thesis
    by (cases rule: save_status_cases) (use processed(8) in auto)
next
  case (run_failed db1 c rep e selfx)
  from run_failed(6) show ?thesis
  proof (cases rule: process_except_cases)
    case saved
    from saved(4) show ?thesis
      by (cases rule: save_status_cases) (use saved(2) in auto)
  qed simp_all
next
  case (last_save_failed db1 c rep fps hs e selfx db2)
  from last_save_failed(9) show ?thesis
  proof (cases rule: process_except_cases)
    case saved
    from saved(4) show ?thesis
      by (cases rule: save_status_cases) (use saved(2) in auto)
  qed simp_all
qed simp_all

theorem process_returns_final_status_witness:
  "id_is_set (pk (fst failing_job))
   \<and> process example_env [] failing_job
       = (Returned, fst (snd (process example_env [] failing_job)),
          snd (snd (process example_env [] failing_job)))
   \<and> (status (fst (snd (process example_env [] failing_job))) = STATUS_PROCESSED
      \<or> status (fst (snd (process example_env [] failing_job))) = STATUS_ERROR)"
proof -
  have saved: "id_is_set (pk (fst failing_job))"
    by (simp add: example_defs id_is_set_def)
  have run: "process example_env [] (fst failing_job, snd failing_job)
       = (Returned, fst (snd (process example_env [] failing_job)),
          snd (snd (process example_env [] failing_job)))"
    by (simp add: failing_job_run)
  from process_returns_final_status[OF saved run] saved run show ?thesis by simp
qed

text \<open>
  C3, as amended. \<^verbatim>\<open>results\<close> is assigned only after the report run and every file
  handler have succeeded, and then it is the join of the handled paths; so when the run
  or a handler raises, \<^verbatim>\<open>results\<close> is what it was before the call. As long as no save
  of the call fails, a call that ends with status \<^verbatim>\<open>error\<close> leaves \<^verbatim>\<open>results\<close>
  unchanged, and \<^verbatim>\<open>results\<close> differs from its old value only when the call returned
  with status \<^verbatim>\<open>processed\<close>.
\<close>

theorem process_results_only_on_success:
  assumes "process env report_params (self, db) = (out, self', db')"
  shows "(results self' \<noteq> results self \<longrightarrow>
            (\<exists>c rep fps hs. my_import env (report self) = Inr c
               \<and> call_report_class c report_params = Inr rep \<and> process_result rep = Inr fps
               \<and> map (output_file_handler env) fps = map Inr hs
               \<and> results self' = Some (join '';'' hs)))
       \<and> (save_faults db = [] \<longrightarrow>
            (status self' = STATUS_ERROR \<longrightarrow> results self' = results self)
            \<and> (results self' \<noteq> results self \<longrightarrow> out = Returned \<and> status self' = STATUS_PROCESSED))"
  using assms
proof (cases rule: process_elim)
  case (processed db1 c rep fps hs)
  then show ?thesis by (auto simp: handle_filepaths_Inr)
next
  case (run_failed db1 c rep e selfx)
  from run_failed(6) have "results self' = results selfx"
    by (cases rule: process_except_cases) simp_all
  with run_failed(5) show ?thesis by auto
next
  case (last_save_failed db1 c rep fps hs e selfx db2)
  from last_save_failed(9) have r: "results self' = results selfx"
    by (cases rule: process_except_cases) simp_all
  have "save_faults db \<noteq> []"
  proof
    assume ff: "save_faults db = []"
    from last_save_failed(2) obtain i row where i: "pk self = Some i" "i \<in> dom (rows db1)"
      by (cases rule: save_status_pk) auto
    from save_status_fault_free[OF ff last_save_failed(2)]
    have ff1: "save_faults db1 = []" by simp
    from i last_save_failed(7) have "\<exists>i row. pk selfx = Some i \<and> rows db1 i = Some row"
      by auto
    with save_status_fault_free(2)[OF ff1 last_save_failed(8)] show False by blast
  qed
  with r last_save_failed show ?thesis by (auto simp: handle_filepaths_Inr)
qed simp_all

theorem process_results_only_on_success_witness:
  "process example_env [] failing_job
     = (Returned, fst (snd (process example_env [] failing_job)),
        snd (snd (process example_env [] failing_job)))
   \<and> save_faults (snd failing_job) = []
   \<and> status (fst (snd (process example_env [] failing_job))) = STATUS_ERROR
   \<and> results (fst (snd (process example_env [] failing_job))) = results (fst failing_job)
   \<and> save_faults (snd sales_job) = []
   \<and> results (fst (snd (process example_env [] sales_job))) \<noteq> results (fst sales_job)
   \<and> fst (process example_env [] sales_job) = Returned
   \<and> status (fst (snd (process example_env [] sales_job))) = STATUS_PROCESSED"
proof -
  have run: "process example_env [] (fst failing_job, snd failing_job)
     = (Returned, fst (snd (process example_env [] failing_job)),
        snd (snd (process example_env [] failing_job)))"
    by (simp add: failing_job_run)
  have ff: "save_faults (snd failing_job) = []" "save_faults (snd sales_job) = []"
    by (simp_all add: example_defs)
  have err: "status (fst (snd (process example_env [] failing_job))) = STATUS_ERROR"
    by (simp add: failing_job_run)
  have run2: "process example_env [] (fst sales_job, snd sales_job)
     = (fst (process example_env [] sales_job), fst (snd (process example_env [] sales_job)),
        snd (snd (process example_env [] sales_job)))"
    by simp
  have changed: "results (fst (snd (process example_env [] sales_job))) \<noteq> results (fst sales_job)"
    by (simp add: sales_job_run) (simp add: example_defs)
  from process_results_only_on_success[OF run] process_results_only_on_success[OF run2]
    run ff err changed
  show ?thesis by simp
qed

text \<open>
  As first stated, C3 leaves \<^verbatim>\<open>results\<close> unchanged whenever the call ends with status
  \<^verbatim>\<open>error\<close>. The save of \<^verbatim>\<open>processed\<close> stands inside the \<^verbatim>\<open>try\<close>, after the
  assignment of \<^verbatim>\<open>results\<close>: when that save raises, the call ends with status
  \<^verbatim>\<open>error\<close> and \<^verbatim>\<open>results\<close> set.
\<close>

theorem process_results_only_on_success_counterexample:
  "id_is_set (pk (fst lost_connection_job))
   \<and> results (fst lost_connection_job) = None
   \<and> fst (process example_env [] lost_connection_job) = Returned
   \<and> status (fst (snd (process example_env [] lost_connection_job))) = STATUS_ERROR
   \<and> results (fst (snd (process example_env [] lost_connection_job)))
       = Some ''/tmp/a.tsv;/tmp/b.tsv''"
  by (simp add: lost_connection_job_run) (simp add: lost_connection_job_def example_defs id_is_set_def)

text \<open>
  C4. On a record that was never saved (\<^verbatim>\<open>id\<close> is \<^verbatim>\<open>None\<close> or 0) \<^verbatim>\<open>process\<close> raises
  ReportNotSavedException and leaves the record and the database as they were; the
  status in particular is unchanged, so a fresh record stays \<^verbatim>\<open>pending\<close>.
\<close>

theorem process_unsaved_raises:
  assumes "\<not> id_is_set (pk self)"
  shows "process env report_params (self, db) = (Raised ReportNotSavedException, self, db)
       \<and> status (fst (snd (process env report_params (self, db)))) = status self"
  using assms by (simp add: process_def)

theorem process_unsaved_raises_witness:
  "\<not> id_is_set (pk (new_Report ''reports.SalesReport''))
   \<and> process example_env [] (new_Report ''reports.SalesReport'', empty_db)
       = (Raised ReportNotSavedException, new_Report ''reports.SalesReport'', empty_db)
   \<and> status (fst (snd (process example_env [] (new_Report ''reports.SalesReport'', empty_db))))
       = STATUS_PENDING"
proof -
  have unsaved: "\<not> id_is_set (pk (new_Report ''reports.SalesReport''))"
    by (simp add: new_Report_def id_is_set_def)
  have pending: "status (new_Report ''reports.SalesReport'') = STATUS_PENDING"
    by (simp add: new_Report_def)
  from process_unsaved_raises[OF unsaved, of example_env "[]" empty_db] unsaved pending
  show ?thesis by simp
qed

text \<open>
  C5. A successful \<^verbatim>\<open>process\<close> is to save both the output paths and the final
  status to the database. On the saved record of \<^verbatim>\<open>reports.SalesReport\<close> the call
  returns, the instance holds \<^verbatim>\<open>processed\<close> and the joined paths, the row holds
  \<^verbatim>\<open>processed\<close>, and the row's \<^verbatim>\<open>results\<close> column is still empty, because every
  \<^verbatim>\<open>save\<close> of \<^verbatim>\<open>process\<close> names \<^verbatim>\<open>update_fields=['status']\<close> only.
\<close>

theorem process_results_not_saved:
  "fst (process example_env [] sales_job) = Returned
   \<and> status (fst (snd (process example_env [] sales_job))) = STATUS_PROCESSED
   \<and> results (fst (snd (process example_env [] sales_job))) = Some ''/tmp/a.tsv;/tmp/b.tsv''
   \<and> map_option db_status (rows (snd (snd (process example_env [] sales_job))) 1)
       = Some STATUS_PROCESSED
   \<and> map_option db_results (rows (snd (snd (process example_env [] sales_job))) 1) = Some None"
  by (simp add: sales_job_run)

text \<open>
  C6. \<^verbatim>\<open>output_file_handler\<close> returns the file path unchanged when no handler is
  configured (the setting is \<^verbatim>\<open>None\<close> or empty) and the handler's value when one is
  configured and resolves to a function. When the record is saved and has a row, the two
  saves go through, the report class resolves, the run succeeds and every path is
  handled, \<^verbatim>\<open>process\<close> returns with \<^verbatim>\<open>results\<close> the \<^verbatim>\<open>';'\<close>-join of the handled
  paths in the order of the report's output file paths; and whenever a call on a saved
  record ends with status \<^verbatim>\<open>processed\<close>, \<^verbatim>\<open>results\<close> is such a join.
\<close>

theorem results_are_handled_paths:
  "((ONMYDESK_FILE_HANDLER env = None \<or> ONMYDESK_FILE_HANDLER env = Some [])
      \<longrightarrow> output_file_handler env path = Inr path)
   \<and> (ONMYDESK_FILE_HANDLER env = Some h \<and> h \<noteq> [] \<and> my_import env h = Inr (Function f)
        \<longrightarrow> output_file_handler env path = f path)
   \<and> (id_is_set (pk self) \<and> pk self = Some i \<and> rows db i = Some row
        \<and> list_all (\<lambda>fault. fault = NoFault) (take 2 (save_faults db))
        \<and> my_import env (report self) = Inr c \<and> call_report_class c report_params = Inr rep
        \<and> process_result rep = Inr fps \<and> map (output_file_handler env) fps = map Inr hs
        \<longrightarrow> (\<exists>db'. process env report_params (self, db)
              = (Returned,
                 self\<lparr>status := STATUS_PROCESSED,
                      process_time := Some (round_significant 5 (timer env 1 - timer env 0)),
                      results := Some (join '';'' hs)\<rparr>, db')))
   \<and> (process env report_params (self, db) = (out, self', db') \<and> id_is_set (pk self)
        \<and> status self' = STATUS_PROCESSED
        \<longrightarrow> (\<exists>c rep fps hs. my_import env (report self) = Inr c
              \<and> call_report_class c report_params = Inr rep \<and> process_result rep = Inr fps
              \<and> map (output_file_handler env) fps = map Inr hs
              \<and> results self' = Some (join '';'' hs)))"
proof (intro conjI impI)
  assume "ONMYDESK_FILE_HANDLER env = None \<or> ONMYDESK_FILE_HANDLER env = Some []"
  then show "output_file_handler env path = Inr path"
    by (auto simp: output_file_handler_def)
next
  assume "ONMYDESK_FILE_HANDLER env = Some h \<and> h \<noteq> [] \<and> my_import env h = Inr (Function f)"
  then show "output_file_handler env path = f path"
    by (simp add: output_file_handler_def call_handler_def)
next
  assume a: "id_is_set (pk self) \<and> pk self = Some i \<and> rows db i = Some row
        \<and> list_all (\<lambda>fault. fault = NoFault) (take 2 (save_faults db))
        \<and> my_import env (report self) = Inr c \<and> call_report_class c report_params = Inr rep
        \<and> process_result rep = Inr fps \<and> map (output_file_handler env) fps = map Inr hs"
  then have hf: "handle_filepaths env [] fps = Inr hs"
    by (simp add: handle_filepaths_Inr)
  let ?self1 = "self\<lparr>status := STATUS_PROCESSING\<rparr>"
  let ?db1 = "db\<lparr>save_faults := tl (save_faults db),
              rows := (rows db)(i \<mapsto> row\<lparr>db_status := STATUS_PROCESSING\<rparr>),
              status_log := status_log db @ [(i, STATUS_PROCESSING)]\<rparr>"
  let ?made = "?self1\<lparr>process_time := Some (round_significant 5 (timer env 1 - timer env 0))\<rparr>
                 \<lparr>results := Some (join '';'' hs)\<rparr>\<lparr>status := STATUS_PROCESSED\<rparr>"
  from a have f1: "save_faults db = [] \<or> hd (save_faults db) = NoFault"
    by (cases "save_faults db") auto
  from a have f2: "save_faults ?db1 = [] \<or> hd (save_faults ?db1) = NoFault"
    by (cases "save_faults db"; cases "tl (save_faults db)") auto
  from a have s1: "save_status ?self1 db = (None, ?db1)"
    using save_status_no_fault[of ?self1 i db row, OF _ _ f1] by simp
  have "\<exists>d. save_status ?made ?db1 = (None, d)"
    using save_status_no_fault[of ?made i ?db1 "row\<lparr>db_status := STATUS_PROCESSING\<rparr>", OF _ _ f2] a
    by simp
  then obtain d where s2: "save_status ?made ?db1 = (None, d)" ..
  from a hf s2 have "process_try env rep (?self1, ?db1) = (None, ?made, d)"
    by (simp add: process_try_def Let_def)
  moreover from a have "id_is_set (pk self)" and "my_import env (report self) = Inr c"
    and "call_report_class c report_params = Inr rep"
    by blast+
  ultimately have "process env report_params (self, db) = (Returned, ?made, d)"
    using s1 by (simp add: process_def Let_def)
  then show "\<exists>db'. process env report_params (self, db)
              = (Returned,
                 self\<lparr>status := STATUS_PROCESSED,
                      process_time := Some (round_significant 5 (timer env 1 - timer env 0)),
                      results := Some (join '';'' hs)\<rparr>, db')"
    by simp
next
  assume "process env report_params (self, db) = (out, self', db') \<and> id_is_set (pk self)
        \<and> status self' = STATUS_PROCESSED"
  then have run: "process env report_params (self, db) = (out, self', db')"
    and saved: "id_is_set (pk self)" and st: "status self' = STATUS_PROCESSED"
    by simp_all
  from run show "\<exists>c rep fps hs. my_import env (report self) = Inr c
              \<and> call_report_class c report_params = Inr rep \<and> process_result rep = Inr fps
              \<and> map (output_file_handler env) fps = map Inr hs
              \<and> results self' = Some (join '';'' hs)"
  proof (cases rule: process_elim)
    case not_saved
    with saved show ?thesis by simp
  next
    case (save_failed e)
    with st show ?thesis by simp
  next
    case (not_resolved e)
    with st show ?thesis by simp
  next
    case (processed db1 c rep fps hs)
    then show ?thesis by (auto simp: handle_filepaths_Inr)
  next
    case (run_failed db1 c rep e selfx)
    from run_failed(6) have "status self' = STATUS_ERROR \<or> self' = selfx"
      by (cases rule: process_except_cases) simp_all
    with st run_failed(5) show ?thesis by auto
  next
    case (last_save_failed db1 c rep fps hs e selfx db2)
    from last_save_failed(9) have "results self' = results selfx"
      by (cases rule: process_except_cases) simp_all
    with last_save_failed show ?thesis by (auto simp: handle_filepaths_Inr)
  qed
qed

theorem results_are_handled_paths_witness:
  "ONMYDESK_FILE_HANDLER example_env = None
   \<and> output_file_handler example_env ''/tmp/a.tsv'' = Inr ''/tmp/a.tsv''
   \<and> ONMYDESK_FILE_HANDLER handler_env = Some ''handlers.to_bucket''
   \<and> output_file_handler handler_env ''/tmp/a.tsv'' = Inr ''s3://tmp/a.tsv''
   \<and> id_is_set (pk (fst sales_job))
   \<and> list_all (\<lambda>fault. fault = NoFault) (take 2 (save_faults (snd sales_job)))
   \<and> (\<exists>db'. process handler_env [] sales_job
         = (Returned,
            (fst sales_job)\<lparr>status := STATUS_PROCESSED, process_time := Some 5123500000,
               results := Some (join '';'' [''s3://tmp/a.tsv'', ''s3://tmp/b.tsv''])\<rparr>, db'))"
proof -
  let ?f = "\<lambda>filepath. Inr (''s3:/'' @ filepath) :: exn + string"
  let ?k = "\<lambda>params :: (string \<times> string) list.
              Inr (ReportInstance (Inr [''/tmp/a.tsv'', ''/tmp/b.tsv''])) :: exn + report_instance"
  let ?row = "\<lparr>db_status = STATUS_PENDING, db_process_time = None,
               db_report = ''reports.SalesReport'', db_results = None\<rparr>"
  have unset: "ONMYDESK_FILE_HANDLER example_env = None"
    by (simp add: example_env_def)
  have conf: "ONMYDESK_FILE_HANDLER handler_env = Some ''handlers.to_bucket''"
    by (simp add: handler_env_def example_env_def)
  have imp: "my_import handler_env ''handlers.to_bucket'' = Inr (Function ?f)"
    by (simp add: example_defs my_import_def)
  have saved: "id_is_set (pk (fst sales_job))" "pk (fst sales_job) = Some 1"
    "rows (snd sales_job) 1 = Some ?row"
    "list_all (\<lambda>fault. fault = NoFault) (take 2 (save_faults (snd sales_job)))"
    by (simp_all add: example_defs id_is_set_def)
  have cls: "my_import handler_env (report (fst sales_job)) = Inr (ReportClass ?k)"
    by (simp add: example_defs my_import_def)
  have inst: "call_report_class (ReportClass ?k) [] = Inr (ReportInstance (Inr [''/tmp/a.tsv'', ''/tmp/b.tsv'']))"
    "process_result (ReportInstance (Inr [''/tmp/a.tsv'', ''/tmp/b.tsv''])) = Inr [''/tmp/a.tsv'', ''/tmp/b.tsv'']"
    by (simp_all add: call_report_class_def)
  have handled: "map (output_file_handler handler_env) [''/tmp/a.tsv'', ''/tmp/b.tsv'']
                 = map Inr [''s3://tmp/a.tsv'', ''s3://tmp/b.tsv'']"
    by (simp add: example_defs output_file_handler_def my_import_def call_handler_def)
  have tm: "round_significant 5 (timer handler_env 1 - timer handler_env 0) = 5123500000"
    by (simp add: example_defs example_elapsed)
  note plain = results_are_handled_paths[where env = example_env and path = "''/tmp/a.tsv''"]
  note conf' = results_are_handled_paths[where env = handler_env and path = "''/tmp/a.tsv''"
      and h = "''handlers.to_bucket''" and f = ?f and self = "fst sales_job"
      and db = "snd sales_job" and i = 1 and row = ?row and c = "ReportClass ?k"
      and report_params = "[]" and rep = "ReportInstance (Inr [''/tmp/a.tsv'', ''/tmp/b.tsv''])"
      and fps = "[''/tmp/a.tsv'', ''/tmp/b.tsv'']"
      and hs = "[''s3://tmp/a.tsv'', ''s3://tmp/b.tsv'']"]
  from plain unset have p1: "output_file_handler example_env ''/tmp/a.tsv'' = Inr ''/tmp/a.tsv''"
    by blast
  from conf' conf imp have p2: "output_file_handler handler_env ''/tmp/a.tsv'' = Inr ''s3://tmp/a.tsv''"
    by simp
  from conf' saved cls inst handled
  have p3: "\<exists>db'. process handler_env [] (fst sales_job, snd sales_job)
         = (Returned,
            (fst sales_job)\<lparr>status := STATUS_PROCESSED,
               process_time := Some (round_significant 5 (timer handler_env 1 - timer handler_env 0)),
               results := Some (join '';'' [''s3://tmp/a.tsv'', ''s3://tmp/b.tsv''])\<rparr>, db')"
    by blast
  from p3 have p3': "\<exists>db'. process handler_env [] sales_job
         = (Returned,
            (fst sales_job)\<lparr>status := STATUS_PROCESSED, process_time := Some 5123500000,
               results := Some (join '';'' [''s3://tmp/a.tsv'', ''s3://tmp/b.tsv''])\<rparr>, db')"
    by (simp only: tm prod.collapse)
  from unset conf saved(1,4) p1 p2 p3' show ?thesis by (intro conjI)
qed




section \<open>results_as_list\<close>

text \<open>
  C8, as amended. \<^verbatim>\<open>results_as_list\<close> is empty when \<^verbatim>\<open>results\<close> is \<^verbatim>\<open>None\<close> or the
  empty string and otherwise \<^verbatim>\<open>results\<close> split on \<^verbatim>\<open>';'\<close>. A non-empty list of paths
  without \<^verbatim>\<open>';'\<close> that is not the one-element list of the empty path reads back from
  its join unchanged.
\<close>

theorem results_as_list_roundtrip:
  "((results self = None \<or> results self = Some []) \<longrightarrow> results_as_list self = [])
   \<and> (results self = Some s \<and> s \<noteq> [] \<longrightarrow> results_as_list self = split_on CHR '';'' s)
   \<and> (paths \<noteq> [] \<and> paths \<noteq> [[]] \<and> list_all (\<lambda>p. CHR '';'' \<notin> set p) paths
        \<longrightarrow> results_as_list (self\<lparr>results := Some (join '';'' paths)\<rparr>) = paths)"
proof (intro conjI impI)
  assume "results self = None \<or> results self = Some []"
  then show "results_as_list self = []"
    by (auto simp: results_as_list_def)
next
  assume "results self = Some s \<and> s \<noteq> []"
  then show "results_as_list self = split_on CHR '';'' s"
    by (simp add: results_as_list_def)
next
  assume a: "paths \<noteq> [] \<and> paths \<noteq> [[]] \<and> list_all (\<lambda>p. CHR '';'' \<notin> set p) paths"
  then have "join '';'' paths \<noteq> []"
    by (simp add: join_eq_Nil)
  moreover from a have "split_on CHR '';'' (join '';'' paths) = paths"
    by (simp add: split_on_join)
  ultimately show "results_as_list (self\<lparr>results := Some (join '';'' paths)\<rparr>) = paths"
    by (simp add: results_as_list_def)
qed


theorem results_as_list_roundtrip_witness:
  "results (new_Report ''reports.SalesReport'') = None
   \<and> results_as_list (new_Report ''reports.SalesReport'') = []
   \<and> list_all (\<lambda>p. CHR '';'' \<notin> set p) [''/tmp/a.tsv'', ''/tmp/b.tsv'']
   \<and> results_as_list ((new_Report ''reports.SalesReport'')
         \<lparr>results := Some (join '';'' [''/tmp/a.tsv'', ''/tmp/b.tsv''])\<rparr>)
       = [''/tmp/a.tsv'', ''/tmp/b.tsv'']"
proof -
  have none: "results (new_Report ''reports.SalesReport'') = None"
    by (simp add: new_Report_def)
  have ok: "[''/tmp/a.tsv'', ''/tmp/b.tsv''] \<noteq> []" "[''/tmp/a.tsv'', ''/tmp/b.tsv''] \<noteq> [[]]"
    "list_all (\<lambda>p. CHR '';'' \<notin> set p) [''/tmp/a.tsv'', ''/tmp/b.tsv'']"
    by simp_all
  from results_as_list_roundtrip[where self = "new_Report ''reports.SalesReport''"
      and paths = "[''/tmp/a.tsv'', ''/tmp/b.tsv'']"] none ok
  show ?thesis by blast
qed


text \<open>
  As first stated, C8 covers every non-empty list: the list holding only the empty path
  joins to the empty string, which reads back as the empty list.
\<close>

theorem results_as_list_roundtrip_counterexample:
  "CHR '';'' \<notin> set ''''
   \<and> results_as_list ((new_Report ''reports.SalesReport'')\<lparr>results := Some (join '';'' [''''])\<rparr>)
       \<noteq> ['''']"
  by (simp add: results_as_list_def)

section \<open>str_to_date\<close>

lemma digit_not_space: "is_digit c \<Longrightarrow> \<not> is_space c \<and> c \<noteq> CHR ''-'' \<and> c \<noteq> CHR ''+''"
  by (auto simp: is_digit_def is_space_def)

lemma not_letter:
  assumes "of_char c < (97 :: nat)"
  shows "upper_char c = c"
proof -
  have "c \<notin> set ''abcdefghijklmnopqrstuvwxyz''"
  proof
    assume "c \<in> set ''abcdefghijklmnopqrstuvwxyz''"
    then have "(97 :: nat) \<le> of_char c" by auto
    with assms show False by simp
  qed
  then have "map_of (zip ''abcdefghijklmnopqrstuvwxyz'' ''ABCDEFGHIJKLMNOPQRSTUVWXYZ'') c = None"
    by (subst map_of_eq_None_iff) simp
  then show ?thesis by (simp only: upper_char_def option.case)
qed

lemma digit_plain:
  assumes "is_digit c"
  shows "c \<noteq> CHR '' '' \<and> upper_char c = c"
proof
  from assms show "c \<noteq> CHR '' ''" by (auto simp: is_digit_def)
  from assms have "of_char c < (97 :: nat)" by (simp add: is_digit_def)
  then show "upper_char c = c" by (rule not_letter)
qed

lemma strip_ws_digits:
  assumes "ds \<noteq> []" "list_all is_digit ds"
  shows "strip_ws ds = ds"
proof -
  from assms have h: "\<not> is_space (hd ds)" and l: "\<not> is_space (last ds)"
    by (auto simp: list_all_iff digit_not_space)
  from assms(1) h have "dropWhile is_space ds = ds"
    by (cases ds) auto
  moreover from assms(1) l have "dropWhile is_space (rev ds) = rev ds"
    by (cases "rev ds") (auto simp: last_rev[symmetric] hd_rev)
  ultimately show ?thesis by (simp add: strip_ws_def)
qed

lemma foldl_decimal_nonneg:
  "list_all is_digit ds \<Longrightarrow> 0 \<le> a \<Longrightarrow>
   0 \<le> foldl (\<lambda>n c. 10 * n + (int (of_char c) - 48)) a ds"
proof (induction ds arbitrary: a)
  case Nil
  then show ?case by simp
next
  case (Cons c ds)
  from Cons.prems have "0 \<le> 10 * a + (int (of_char c) - 48)"
    by (simp add: is_digit_def)
  with Cons show ?case by simp
qed

lemma decimal_value_nonneg: "list_all is_digit ds \<Longrightarrow> 0 \<le> decimal_value ds"
  by (simp add: decimal_value_def foldl_decimal_nonneg)

lemma decimal_value_zeros: "decimal_value (replicate n CHR ''0'') = 0"
  by (induction n) (simp_all add: decimal_value_def)

lemma py_int_digits:
  assumes "ds \<noteq> []" "list_all is_digit ds"
  shows "py_int max_str_digits ds =
     (if max_str_digits = 0 \<or> length ds \<le> max_str_digits
      then Inr (decimal_value ds) else Inl ValueError)"
proof -
  from assms obtain c r where ds: "ds = c # r" by (cases ds) auto
  with assms have "is_digit c" by simp
  then have "c \<noteq> CHR ''-''" "c \<noteq> CHR ''+''" by (simp_all add: digit_not_space)
  with assms ds show ?thesis
    by (simp add: py_int_def strip_ws_digits)
qed

text \<open>A value already in normal form is not changed by the normalisation.\<close>

lemma normalized_signed:
  assumes "sg = CHR ''-'' \<or> sg = CHR ''+''" "ds \<noteq> []" "list_all is_digit ds"
  shows "upper (remove_spaces (strip_space (CHR ''D'' # sg # ds))) = CHR ''D'' # sg # ds"
proof -
  from assms(2,3) have l: "last ds \<noteq> CHR '' ''"
    by (auto simp: list_all_iff digit_plain)
  with assms(2) have "dropWhile (\<lambda>c. c = CHR '' '') (rev (CHR ''D'' # sg # ds))
      = rev (CHR ''D'' # sg # ds)"
    by (cases "rev ds") (auto simp: last_rev[symmetric] hd_rev)
  then have s: "strip_space (CHR ''D'' # sg # ds) = CHR ''D'' # sg # ds"
    by (simp add: strip_space_def)
  from assms(3) have f: "filter (\<lambda>c. c \<noteq> CHR '' '') ds = ds"
    by (auto simp: list_all_iff digit_plain)
  from assms(3) have u: "map upper_char ds = ds"
    by (induction ds) (simp_all add: digit_plain)
  from assms(1) have sg: "sg \<noteq> CHR '' ''" "upper_char sg = sg"
    by (elim disjE; simp add: not_letter)+
  have d: "upper_char CHR ''D'' = CHR ''D''"
    by (simp add: not_letter)
  have "remove_spaces (CHR ''D'' # sg # ds) = CHR ''D'' # sg # ds"
    using sg(1) f by (simp add: remove_spaces_def)
  moreover have "upper (CHR ''D'' # sg # ds) = CHR ''D'' # sg # ds"
    using sg(2) d u by (simp add: upper_def)
  ultimately show ?thesis
    by (simp only: s)
qed

lemma pattern_matches_signed:
  assumes "sg = CHR ''-'' \<or> sg = CHR ''+''" "ds \<noteq> []" "list_all is_digit ds"
  shows "pattern_matches (CHR ''D'' # sg # ds)"
proof -
  from assms(2,3) have "takeWhile is_digit ds \<noteq> []"
    by (cases ds) auto
  moreover from assms(3) have "dropWhile is_digit ds = []"
    by (simp add: list_all_iff)
  ultimately show ?thesis
    using assms(1) by (simp add: pattern_matches_def at_end_def)
qed

lemma pattern_matches_shape:
  assumes "pattern_matches s"
  shows "s = ''D'' \<or> s = [CHR ''D'', CHR 0x0A]
       \<or> (\<exists>sg ds. (sg = CHR ''-'' \<or> sg = CHR ''+'')
             \<and> (s = CHR ''D'' # sg # ds \<or> s = CHR ''D'' # sg # ds @ [CHR 0x0A])
             \<and> ds \<noteq> [] \<and> list_all is_digit ds)"
proof (cases s)
  case Nil
  with assms show ?thesis by (simp add: pattern_matches_def)
next
  case (Cons c rest)
  with assms have c: "c = CHR ''D''" by (simp add: pattern_matches_def)
  show ?thesis
  proof (cases "at_end rest")
    case True
    then have "rest = [] \<or> rest = [CHR 0x0A]" by (simp only: at_end_def)
    with Cons c have "s = ''D'' \<or> s = [CHR ''D'', CHR 0x0A]" by auto
    then show ?thesis by blast
  next
    case False
    from assms Cons c False
    have "case rest of [] \<Rightarrow> False
          | sg # ds \<Rightarrow> (sg = CHR ''-'' \<or> sg = CHR ''+'') \<and> takeWhile is_digit ds \<noteq> [] \<and>
                at_end (dropWhile is_digit ds)"
      by (simp add: pattern_matches_def)
    then obtain sg ds where rest: "rest = sg # ds"
      and sg: "sg = CHR ''-'' \<or> sg = CHR ''+''"
      and tk: "takeWhile is_digit ds \<noteq> []" and ae: "at_end (dropWhile is_digit ds)"
      by (cases rest) simp_all
    let ?core = "takeWhile is_digit ds"
    have core: "list_all is_digit ?core"
      by (simp add: list_all_iff) (meson set_takeWhileD)
    have split: "ds = ?core @ dropWhile is_digit ds" by simp
    from ae have "dropWhile is_digit ds = [] \<or> dropWhile is_digit ds = [CHR 0x0A]"
      by (simp only: at_end_def)
    then have "ds = ?core \<or> ds = ?core @ [CHR 0x0A]"
    proof
      assume "dropWhile is_digit ds = []"
      with split have "ds = ?core" by simp
      then show ?thesis by (rule disjI1)
    next
      assume "dropWhile is_digit ds = [CHR 0x0A]"
      with split have "ds = ?core @ [CHR 0x0A]" by simp
      then show ?thesis by (rule disjI2)
    qed
    with Cons c rest
    have "s = CHR ''D'' # sg # ?core \<or> s = CHR ''D'' # sg # ?core @ [CHR 0x0A]"
      by auto
    with sg tk core
    have "(sg = CHR ''-'' \<or> sg = CHR ''+'')
             \<and> (s = CHR ''D'' # sg # ?core \<or> s = CHR ''D'' # sg # ?core @ [CHR 0x0A])
             \<and> ?core \<noteq> [] \<and> list_all is_digit ?core"
      by (intro conjI)
    then have "\<exists>sg ds. (sg = CHR ''-'' \<or> sg = CHR ''+'')
             \<and> (s = CHR ''D'' # sg # ds \<or> s = CHR ''D'' # sg # ds @ [CHR 0x0A])
             \<and> ds \<noteq> [] \<and> list_all is_digit ds"
      by (intro exI)
    then show ?thesis by (intro disjI2)
  qed
qed

lemma str_to_date_signed:
  assumes "upper (remove_spaces (strip_space value)) = CHR ''D'' # sg # ds"
      and "sg = CHR ''-'' \<or> sg = CHR ''+''" "ds \<noteq> []" "list_all is_digit ds"
  shows "str_to_date max_str_digits value reference_date =
     (if max_str_digits \<noteq> 0 \<and> max_str_digits < length ds then Inl ValueError
      else if sg = CHR ''-''
      then (case timedelta (decimal_value ds) of
              Inl e \<Rightarrow> Inl e
            | Inr delta \<Rightarrow>
                (case date_sub reference_date delta of Inl e \<Rightarrow> Inl e | Inr d \<Rightarrow> Inr (Some d)))
      else (case timedelta (decimal_value ds) of
              Inl e \<Rightarrow> Inl e
            | Inr delta \<Rightarrow>
                (case date_add reference_date delta of Inl e \<Rightarrow> Inl e | Inr d \<Rightarrow> Inr (Some d))))"
proof -
  have m: "pattern_matches (CHR ''D'' # sg # ds)"
    using assms(2-4) by (rule pattern_matches_signed)
  note i = py_int_digits[OF assms(3,4), of max_str_digits]
  have nd: "CHR ''D'' # sg # ds \<noteq> ''D''" by simp
  show ?thesis
  proof (cases "sg = CHR ''-''")
    case True
    with m i nd show ?thesis
      by (auto simp: str_to_date_def Let_def assms(1))
  next
    case False
    with assms(2) have "sg = CHR ''+''" by simp
    with m i nd show ?thesis
      by (auto simp: str_to_date_def Let_def assms(1))
  qed
qed

lemma shift_in_range:
  assumes "0 \<le> n"
  shows "(case timedelta n of
            Inl e \<Rightarrow> Inl e
          | Inr delta \<Rightarrow> (case date_sub d delta of Inl e \<Rightarrow> Inl e | Inr x \<Rightarrow> Inr (Some x)))
         = (if n \<le> 999999999 \<and> 0 < d - n \<and> d - n \<le> 3652059
            then Inr (Some (d - n)) else Inl OverflowError)"
    and "(case timedelta n of
            Inl e \<Rightarrow> Inl e
          | Inr delta \<Rightarrow> (case date_add d delta of Inl e \<Rightarrow> Inl e | Inr x \<Rightarrow> Inr (Some x)))
         = (if n \<le> 999999999 \<and> 0 < d + n \<and> d + n \<le> 3652059
            then Inr (Some (d + n)) else Inl OverflowError)"
  using assms by (simp_all add: timedelta_def date_sub_def date_add_def Let_def)

text \<open>
  C9, as amended. With the normalized value (spaces removed, upper case): for \<^verbatim>\<open>D\<close>
  the result is the reference date. For \<^verbatim>\<open>D-n\<close> and \<^verbatim>\<open>D+n\<close>, \<open>n\<close> decimal digits,
  ValueError is raised when the interpreter limits integer strings and \<open>n\<close> has more
  digits than the limit; otherwise the result is the reference date minus or plus \<open>n\<close>
  days when \<open>n\<close> is at most 999999999 and that day is a date, and OverflowError is
  raised when it is not. Every normalized value that is neither one of these three shapes
  nor one of them followed by a single newline raises ValueError. Nothing is said of the
  three shapes followed by a newline.
\<close>

theorem str_to_date_shapes:
  "(upper (remove_spaces (strip_space value)) = ''D''
      \<longrightarrow> str_to_date max_str_digits value reference_date = Inr (Some reference_date))
   \<and> (upper (remove_spaces (strip_space value)) = ''D-'' @ ds \<and> ds \<noteq> [] \<and> list_all is_digit ds
      \<longrightarrow> str_to_date max_str_digits value reference_date =
          (if max_str_digits \<noteq> 0 \<and> max_str_digits < length ds then Inl ValueError
           else if decimal_value ds \<le> 999999999 \<and> 0 < reference_date - decimal_value ds
              \<and> reference_date - decimal_value ds \<le> 3652059
           then Inr (Some (reference_date - decimal_value ds)) else Inl OverflowError))
   \<and> (upper (remove_spaces (strip_space value)) = ''D+'' @ ds \<and> ds \<noteq> [] \<and> list_all is_digit ds
      \<longrightarrow> str_to_date max_str_digits value reference_date =
          (if max_str_digits \<noteq> 0 \<and> max_str_digits < length ds then Inl ValueError
           else if decimal_value ds \<le> 999999999 \<and> 0 < reference_date + decimal_value ds
              \<and> reference_date + decimal_value ds \<le> 3652059
           then Inr (Some (reference_date + decimal_value ds)) else Inl OverflowError))
   \<and> (upper (remove_spaces (strip_space value)) \<noteq> ''D''
       \<and> upper (remove_spaces (strip_space value)) \<noteq> [CHR ''D'', CHR 0x0A]
       \<and> (\<nexists>sg ds. (sg = CHR ''-'' \<or> sg = CHR ''+'')
              \<and> (upper (remove_spaces (strip_space value)) = CHR ''D'' # sg # ds
                  \<or> upper (remove_spaces (strip_space value)) = CHR ''D'' # sg # ds @ [CHR 0x0A])
              \<and> ds \<noteq> [] \<and> list_all is_digit ds)
      \<longrightarrow> str_to_date max_str_digits value reference_date = Inl ValueError)"
proof (intro conjI impI)
  assume "upper (remove_spaces (strip_space value)) = ''D''"
  then show "str_to_date max_str_digits value reference_date = Inr (Some reference_date)"
    by (simp add: str_to_date_def pattern_matches_def at_end_def)
next
  assume a: "upper (remove_spaces (strip_space value)) = ''D-'' @ ds \<and> ds \<noteq> []
             \<and> list_all is_digit ds"
  then have n: "upper (remove_spaces (strip_space value)) = CHR ''D'' # CHR ''-'' # ds"
    and ds: "ds \<noteq> []" "list_all is_digit ds"
    by simp_all
  from ds have nn: "0 \<le> decimal_value ds" by (simp add: decimal_value_nonneg)
  show "str_to_date max_str_digits value reference_date =
          (if max_str_digits \<noteq> 0 \<and> max_str_digits < length ds then Inl ValueError
           else if decimal_value ds \<le> 999999999 \<and> 0 < reference_date - decimal_value ds
              \<and> reference_date - decimal_value ds \<le> 3652059
           then Inr (Some (reference_date - decimal_value ds)) else Inl OverflowError)"
    by (simp only: str_to_date_signed[OF n _ ds] shift_in_range(1)[OF nn] simp_thms if_True)
next
  assume a: "upper (remove_spaces (strip_space value)) = ''D+'' @ ds \<and> ds \<noteq> []
             \<and> list_all is_digit ds"
  then have n: "upper (remove_spaces (strip_space value)) = CHR ''D'' # CHR ''+'' # ds"
    and ds: "ds \<noteq> []" "list_all is_digit ds"
    by simp_all
  from ds have nn: "0 \<le> decimal_value ds" by (simp add: decimal_value_nonneg)
  have neq: "CHR ''+'' \<noteq> CHR ''-''" by simp
  show "str_to_date max_str_digits value reference_date =
          (if max_str_digits \<noteq> 0 \<and> max_str_digits < length ds then Inl ValueError
           else if decimal_value ds \<le> 999999999 \<and> 0 < reference_date + decimal_value ds
              \<and> reference_date + decimal_value ds \<le> 3652059
           then Inr (Some (reference_date + decimal_value ds)) else Inl OverflowError)"
    by (simp only: str_to_date_signed[OF n _ ds] shift_in_range(2)[OF nn] neq simp_thms if_False)
next
  assume a: "upper (remove_spaces (strip_space value)) \<noteq> ''D''
       \<and> upper (remove_spaces (strip_space value)) \<noteq> [CHR ''D'', CHR 0x0A]
       \<and> (\<nexists>sg ds. (sg = CHR ''-'' \<or> sg = CHR ''+'')
              \<and> (upper (remove_spaces (strip_space value)) = CHR ''D'' # sg # ds
                  \<or> upper (remove_spaces (strip_space value)) = CHR ''D'' # sg # ds @ [CHR 0x0A])
              \<and> ds \<noteq> [] \<and> list_all is_digit ds)"
  have "\<not> pattern_matches (upper (remove_spaces (strip_space value)))"
  proof
    assume "pattern_matches (upper (remove_spaces (strip_space value)))"
    from pattern_matches_shape[OF this] show False
    proof (elim disjE)
      assume "upper (remove_spaces (strip_space value)) = ''D''"
      with a show False by (elim conjE notE)
    next
      assume "upper (remove_spaces (strip_space value)) = [CHR ''D'', CHR 0x0A]"
      with a show False by (elim conjE notE)
    next
      assume "\<exists>sg ds. (sg = CHR ''-'' \<or> sg = CHR ''+'')
              \<and> (upper (remove_spaces (strip_space value)) = CHR ''D'' # sg # ds
                  \<or> upper (remove_spaces (strip_space value)) = CHR ''D'' # sg # ds @ [CHR 0x0A])
              \<and> ds \<noteq> [] \<and> list_all is_digit ds"
      with a show False by (elim conjE notE)
    qed
  qed
  then show "str_to_date max_str_digits value reference_date = Inl ValueError"
    by (simp add: str_to_date_def)
qed

theorem str_to_date_shapes_witness:
  "str_to_date 4300 ''d'' 736000 = Inr (Some 736000)
   \<and> str_to_date 4300 '' d - 12 '' 736000 = Inr (Some 735988)
   \<and> str_to_date 0 ''D+30'' 736000 = Inr (Some 736030)
   \<and> str_to_date 4300 ''D-4000000'' 736000 = Inl OverflowError
   \<and> str_to_date 4300 ''yesterday'' 736000 = Inl ValueError
   \<and> str_to_date 4300 (''tomorrow'' @ [CHR 0x0A]) 736000 = Inl ValueError"
proof -
  have n1: "upper (remove_spaces (strip_space ''d'')) = ''D''"
    and n2: "upper (remove_spaces (strip_space '' d - 12 '')) = ''D-'' @ ''12''"
    and n3: "upper (remove_spaces (strip_space ''D+30'')) = ''D+'' @ ''30''"
    and n4: "upper (remove_spaces (strip_space ''D-4000000'')) = ''D-'' @ ''4000000''"
    and n5: "upper (remove_spaces (strip_space ''yesterday'')) = ''YESTERDAY''"
    and n6: "upper (remove_spaces (strip_space (''tomorrow'' @ [CHR 0x0A])))
             = ''TOMORROW'' @ [CHR 0x0A]"
    by (simp_all add: upper_def upper_char_def remove_spaces_def strip_space_def)
  have d: "''12'' \<noteq> []" "list_all is_digit ''12''" "decimal_value ''12'' = 12"
    "''30'' \<noteq> []" "list_all is_digit ''30''" "decimal_value ''30'' = 30"
    "''4000000'' \<noteq> []" "list_all is_digit ''4000000''" "decimal_value ''4000000'' = 4000000"
    by (simp_all add: is_digit_def decimal_value_def)
  note t1 = str_to_date_shapes[of "''d''" 4300 736000]
  note t2 = str_to_date_shapes[of "'' d - 12 ''" 4300 736000 "''12''"]
  note t3 = str_to_date_shapes[of "''D+30''" 0 736000 "''30''"]
  note t4 = str_to_date_shapes[of "''D-4000000''" 4300 736000 "''4000000''"]
  note t5 = str_to_date_shapes[of "''yesterday''" 4300 736000]
  note t6 = str_to_date_shapes[of "''tomorrow'' @ [CHR 0x0A]" 4300 736000]
  from t1 n1 have r1: "str_to_date 4300 ''d'' 736000 = Inr (Some 736000)" by blast
  from t2 n2 d have r2: "str_to_date 4300 '' d - 12 '' 736000 = Inr (Some 735988)" by simp
  from t3 n3 d have r3: "str_to_date 0 ''D+30'' 736000 = Inr (Some 736030)" by simp
  from t4 n4 d have r4: "str_to_date 4300 ''D-4000000'' 736000 = Inl OverflowError" by simp
  from t5 n5 have r5: "str_to_date 4300 ''yesterday'' 736000 = Inl ValueError" by simp
  from t6 n6 have r6: "str_to_date 4300 (''tomorrow'' @ [CHR 0x0A]) 736000 = Inl ValueError"
    by simp
  from r1 r2 r3 r4 r5 r6 show ?thesis by (intro conjI)
qed

text \<open>
  As first stated, C9 fails three times. \<^verbatim>\<open>'D'\<close> followed by a newline is none of the
  three shapes, yet the pattern accepts it and the function returns \<^verbatim>\<open>None\<close> instead of
  raising ValueError. \<^verbatim>\<open>'D-4000000'\<close> has the second shape, yet no date lies four
  million days before day 736000, and OverflowError is raised. And \<^verbatim>\<open>'D-'\<close> followed
  by 4301 zeros has the second shape with \<open>n = 0\<close>, yet under the limit of 4300 digits
  ValueError is raised.
\<close>

theorem str_to_date_shapes_counterexample:
  "upper (remove_spaces (strip_space [CHR ''D'', CHR 0x0A])) = [CHR ''D'', CHR 0x0A]
   \<and> str_to_date 4300 [CHR ''D'', CHR 0x0A] 736000 = Inr None
   \<and> upper (remove_spaces (strip_space ''D-4000000'')) = ''D-4000000''
   \<and> str_to_date 4300 ''D-4000000'' 736000 = Inl OverflowError
   \<and> upper (remove_spaces (strip_space (''D-'' @ replicate 4301 CHR ''0'')))
       = ''D-'' @ replicate 4301 CHR ''0''
   \<and> decimal_value (replicate 4301 CHR ''0'') = 0
   \<and> str_to_date 4300 (''D-'' @ replicate 4301 CHR ''0'') 736000 = Inl ValueError"
proof -
  have n1: "upper (remove_spaces (strip_space [CHR ''D'', CHR 0x0A])) = [CHR ''D'', CHR 0x0A]"
    by (simp add: upper_def upper_char_def remove_spaces_def strip_space_def)
  have m1: "pattern_matches [CHR ''D'', CHR 0x0A]"
    by (simp add: pattern_matches_def at_end_def)
  have r1: "str_to_date 4300 [CHR ''D'', CHR 0x0A] 736000 = Inr None"
    by (simp add: str_to_date_def Let_def n1 m1)
  have n2: "upper (remove_spaces (strip_space ''D-4000000'')) = ''D-4000000''"
    by (simp add: upper_def upper_char_def remove_spaces_def strip_space_def)
  have m2: "pattern_matches ''D-4000000''"
    by (simp add: pattern_matches_def at_end_def is_digit_def)
  have i2: "py_int 4300 ''4000000'' = Inr 4000000"
    by (simp add: py_int_def strip_ws_def is_space_def is_digit_def decimal_value_def)
  have r2: "str_to_date 4300 ''D-4000000'' 736000 = Inl OverflowError"
    by (simp add: str_to_date_def Let_def n2 m2 i2 timedelta_def date_sub_def date_add_def)
  have z: "replicate 4301 CHR ''0'' \<noteq> []" "list_all is_digit (replicate 4301 CHR ''0'')"
    by (simp_all add: list_all_iff is_digit_def)
  have n3: "upper (remove_spaces (strip_space (CHR ''D'' # CHR ''-'' # replicate 4301 CHR ''0'')))
       = CHR ''D'' # CHR ''-'' # replicate 4301 CHR ''0''"
    by (rule normalized_signed[OF _ z]) simp
  have r3: "str_to_date 4300 (CHR ''D'' # CHR ''-'' # replicate 4301 CHR ''0'') 736000
       = Inl ValueError"
    by (simp add: str_to_date_signed[OF n3 _ z])
  from n1 r1 n2 r2 n3 r3 show ?thesis
    by (simp only: decimal_value_zeros append_Cons append_Nil simp_thms)
qed

section \<open>BaseReport.process\<close>

lemma BaseReport_row_cleaner_rows: "map BaseReport_row_cleaner rs = rs"
  by (induction rs) (simp_all add: BaseReport_row_cleaner_def)

lemma write_rows_map:
  "write_rows cleaner rs outs =
   map (\<lambda>output. output\<lparr>received := received output @ map (\<lambda>row. Out (cleaner row)) rs\<rparr>) outs"
proof (induction rs arbitrary: outs)
  case Nil
  then show ?case by simp
next
  case (Cons row rs)
  show ?case
    by (simp add: Cons.IH Let_def call_output_def comp_def)
qed

lemma BaseReport_process_result:
  "BaseReport_process defn (h, self) =
     (h @ [map filepath (outputs defn)],
      self\<lparr>own_output_filepaths := Some (length h)\<rparr>,
      map (\<lambda>output. output\<lparr>received := received output
              @ [Entered, Header (header defn)]
              @ map (\<lambda>row. Out (row_cleaner defn row)) (iterate (dataset defn) (params self))
              @ [Footer (footer defn), Exited]\<rparr>) (outputs defn),
      (dataset defn)\<lparr>dataset_calls := dataset_calls (dataset defn)
              @ [DatasetEntered, Iterate (params self), DatasetExited]\<rparr>)"
  by (simp add: BaseReport_process_def Let_def write_rows_map call_output_def call_dataset_def
      comp_def)

text \<open>
  C1. \<^verbatim>\<open>BaseReport.process\<close> asks the dataset for its rows once, with the instance's
  \<^verbatim>\<open>params\<close>. Every output of the outputs list receives the header first, then, for
  each row of the dataset in order, the row cleaned by \<^verbatim>\<open>row_cleaner\<close>, then the footer,
  all inside its context; and afterwards \<^verbatim>\<open>output_filepaths\<close> reads the file paths of
  the outputs in the order of the outputs list.
\<close>

theorem BaseReport_process_single_pass:
  "BaseReport_process defn (h, self) = (h', self', outs', ds') \<Longrightarrow>
   outs' = map (\<lambda>output. output\<lparr>received := received output
                   @ [Entered, Header (header defn)]
                   @ map (\<lambda>row. Out (row_cleaner defn row)) (iterate (dataset defn) (params self))
                   @ [Footer (footer defn), Exited]\<rparr>) (outputs defn)
   \<and> dataset_calls ds' = dataset_calls (dataset defn)
        @ [DatasetEntered, Iterate (params self), DatasetExited]
   \<and> output_filepaths h' self' = map filepath (outputs defn)
   \<and> params self' = params self"
  by (auto simp: BaseReport_process_result output_filepaths_def)

theorem BaseReport_process_single_pass_witness:
  "BaseReport_process sales_definition (BaseReport_init class_heap [])
     = ([[], [], [''/tmp/a.tsv'', ''/tmp/b.tsv'']],
        \<lparr>own_output_filepaths = Some 2, params = []\<rparr>,
        [\<lparr>filepath = ''/tmp/a.tsv'',
          received = [Entered, Header (Some ''id, total''), Out [''1'', ''10''], Out [''2'', ''25''],
                      Footer None, Exited]\<rparr>,
         \<lparr>filepath = ''/tmp/b.tsv'',
          received = [Entered, Header (Some ''id, total''), Out [''1'', ''10''], Out [''2'', ''25''],
                      Footer None, Exited]\<rparr>],
        \<lparr>iterate = (\<lambda>params. [[''1'', '' 10''], [''2'', '' 25'']]),
         dataset_calls = [DatasetEntered, Iterate [], DatasetExited]\<rparr>)
   \<and> output_filepaths [[], [], [''/tmp/a.tsv'', ''/tmp/b.tsv'']]
        \<lparr>own_output_filepaths = Some 2, params = [] :: (string \<times> string) list\<rparr>
       = map filepath (outputs sales_definition)"
proof -
  have run: "BaseReport_process sales_definition
       (class_heap @ [[]], \<lparr>own_output_filepaths = Some (length class_heap), params = []\<rparr>)
     = ([[], [], [''/tmp/a.tsv'', ''/tmp/b.tsv'']],
        \<lparr>own_output_filepaths = Some 2, params = []\<rparr>,
        [\<lparr>filepath = ''/tmp/a.tsv'',
          received = [Entered, Header (Some ''id, total''), Out [''1'', ''10''], Out [''2'', ''25''],
                      Footer None, Exited]\<rparr>,
         \<lparr>filepath = ''/tmp/b.tsv'',
          received = [Entered, Header (Some ''id, total''), Out [''1'', ''10''], Out [''2'', ''25''],
                      Footer None, Exited]\<rparr>],
        \<lparr>iterate = (\<lambda>params. [[''1'', '' 10''], [''2'', '' 25'']]),
         dataset_calls = [DatasetEntered, Iterate [], DatasetExited]\<rparr>)"
    by (simp add: BaseReport_process_def sales_definition_def class_heap_def Let_def
        call_output_def call_dataset_def remove_spaces_def)
  from BaseReport_process_single_pass[OF run]
  have fps: "output_filepaths [[], [], [''/tmp/a.tsv'', ''/tmp/b.tsv'']]
        \<lparr>own_output_filepaths = Some 2, params = [] :: (string \<times> string) list\<rparr>
       = map filepath (outputs sales_definition)"
    by blast
  have "BaseReport_init class_heap ([] :: (string \<times> string) list)
     = (class_heap @ [[]], \<lparr>own_output_filepaths = Some (length class_heap), params = []\<rparr>)"
    by (simp add: BaseReport_init_def)
  with run fps show ?thesis by (simp only: simp_thms)
qed

text \<open>
  C10. \<^verbatim>\<open>__init__\<close> binds a new empty list to each instance: it is not the list of the
  class attribute and not the list of another instance. After one instance has been
  processed its \<^verbatim>\<open>output_filepaths\<close> lists the file paths, while an instance that has
  not been processed still reads the empty list, and the list of the class attribute
  keeps its content.
\<close>

theorem BaseReport_init_fresh_list:
  assumes "class_output_filepaths < length h"
      and "BaseReport_init h p1 = (h1, r1)" "BaseReport_init h1 p2 = (h2, r2)"
      and "BaseReport_process defn (h2, r1) = (h3, r1', outs', ds')"
  shows "output_filepaths h1 r1 = [] \<and> output_filepaths h2 r2 = []
       \<and> own_output_filepaths r1 \<noteq> Some class_output_filepaths
       \<and> own_output_filepaths r2 \<noteq> Some class_output_filepaths
       \<and> own_output_filepaths r1 \<noteq> own_output_filepaths r2
       \<and> output_filepaths h3 r1' = map filepath (outputs defn)
       \<and> output_filepaths h3 r2 = []
       \<and> h3 ! class_output_filepaths = h ! class_output_filepaths"
proof -
  from assms(2) have h1: "h1 = h @ [[]]" and r1: "own_output_filepaths r1 = Some (length h)"
    by (auto simp: BaseReport_init_def)
  from assms(3) h1 have h2: "h2 = h @ [[], []]"
    and r2: "own_output_filepaths r2 = Some (Suc (length h))"
    by (auto simp: BaseReport_init_def)
  from assms(4) h2 obtain fps where h3: "h3 = h @ [[], [], fps]"
    and r1': "own_output_filepaths r1' = Some (Suc (Suc (length h)))"
    by (auto simp: BaseReport_process_def Let_def)
  from assms(4) have fin: "output_filepaths h3 r1' = map filepath (outputs defn)"
    by (auto simp: BaseReport_process_result output_filepaths_def)
  from assms(1) h1 h2 h3 r1 r2 fin show ?thesis
    by (simp add: output_filepaths_def nth_append)
qed

theorem BaseReport_init_fresh_list_witness:
  "class_output_filepaths < length class_heap
   \<and> BaseReport_init class_heap ([] :: (string \<times> string) list)
       = ([[], []], \<lparr>own_output_filepaths = Some 1, params = []\<rparr>)
   \<and> BaseReport_init [[], []] [(''year'', ''2016'')]
       = ([[], [], []], \<lparr>own_output_filepaths = Some 2, params = [(''year'', ''2016'')]\<rparr>)
   \<and> output_filepaths
         (fst (BaseReport_process sales_definition
                ([[], [], []], \<lparr>own_output_filepaths = Some 1, params = []\<rparr>)))
         (fst (snd (BaseReport_process sales_definition
                ([[], [], []], \<lparr>own_output_filepaths = Some 1, params = []\<rparr>))))
       = [''/tmp/a.tsv'', ''/tmp/b.tsv'']
   \<and> output_filepaths
         (fst (BaseReport_process sales_definition
                ([[], [], []], \<lparr>own_output_filepaths = Some 1, params = []\<rparr>)))
         \<lparr>own_output_filepaths = Some 2, params = [(''year'', ''2016'')]\<rparr>
       = []"
proof -
  let ?r1 = "\<lparr>own_output_filepaths = Some 1, params = [] :: (string \<times> string) list\<rparr>"
  let ?r2 = "\<lparr>own_output_filepaths = Some 2, params = [(''year'', ''2016'')]\<rparr>"
  let ?run = "BaseReport_process sales_definition ([[], [], []], ?r1)"
  have c: "class_output_filepaths < length class_heap"
    by (simp add: class_output_filepaths_def class_heap_def)
  have i1: "BaseReport_init class_heap ([] :: (string \<times> string) list) = ([[], []], ?r1)"
    by (simp add: BaseReport_init_def class_heap_def)
  have i2: "BaseReport_init [[], []] [(''year'', ''2016'')] = ([[], [], []], ?r2)"
    by (simp add: BaseReport_init_def)
  have run: "?run = (fst ?run, fst (snd ?run), fst (snd (snd ?run)), snd (snd (snd ?run)))"
    by simp
  have fps: "map filepath (outputs sales_definition) = [''/tmp/a.tsv'', ''/tmp/b.tsv'']"
    by (simp add: sales_definition_def)
  note t = BaseReport_init_fresh_list[OF c i1 i2 run]
  from t fps have p1: "output_filepaths (fst ?run) (fst (snd ?run)) = [''/tmp/a.tsv'', ''/tmp/b.tsv'']"
    by (elim conjE) (simp only:)
  from t have p2: "output_filepaths (fst ?run) ?r2 = []"
    by blast
  from c i1 i2 p1 p2 show ?thesis
    by (intro conjI)
qed

end
